theory Spec2Isabelle
  imports Complex_Main
begin

section \<open>The timeline data model of the state service (ui/src/app/services/state.ts)\<close>

text \<open>
  JavaScript numbers are modelled as real numbers: every comparison and every sum of the
  editor is read exactly, so NaN, the infinities and rounding are outside the model.
  Identifiers are strings. An optional field is an \<open>option\<close>.
\<close>

datatype kind = Video | Audio

record MediaItem =
  media_id :: string
  media_url :: "string option"
  media_type :: kind
  media_name :: string
  media_duration :: real
  videoWidth :: "real option"
  videoHeight :: "real option"
  recording :: "bool option"

record Clip =
  clip_id :: string
  mediaId :: string
  startTime :: real
  duration :: real
  offset :: real
  clip_type :: kind
  muted :: bool
  volume :: real
  stabilized :: "bool option"

text \<open>
  \<open>Partial<Clip>\<close>: the object literal handed to \<open>updateClip\<close>. A field that is
  present overrides the clip's field in the spread \<open>{ ...clip, ...updates }\<close>.
\<close>

record ClipPatch =
  patch_id :: "string option"
  patch_mediaId :: "string option"
  patch_startTime :: "real option"
  patch_duration :: "real option"
  patch_offset :: "real option"
  patch_type :: "kind option"
  patch_muted :: "bool option"
  patch_volume :: "real option"
  patch_stabilized :: "bool option"

definition no_patch :: ClipPatch where
  "no_patch = \<lparr>patch_id = None, patch_mediaId = None, patch_startTime = None,
     patch_duration = None, patch_offset = None, patch_type = None, patch_muted = None,
     patch_volume = None, patch_stabilized = None\<rparr>"

definition orElse :: "'a option \<Rightarrow> 'a \<Rightarrow> 'a" where
  "orElse p v = (case p of None \<Rightarrow> v | Some w \<Rightarrow> w)"

definition spread :: "Clip \<Rightarrow> ClipPatch \<Rightarrow> Clip" where
  "spread c u =
     \<lparr>clip_id = orElse (patch_id u) (clip_id c),
      mediaId = orElse (patch_mediaId u) (mediaId c),
      startTime = orElse (patch_startTime u) (startTime c),
      duration = orElse (patch_duration u) (duration c),
      offset = orElse (patch_offset u) (offset c),
      clip_type = orElse (patch_type u) (clip_type c),
      muted = orElse (patch_muted u) (muted c),
      volume = orElse (patch_volume u) (volume c),
      stabilized = (case patch_stabilized u of None \<Rightarrow> stabilized c | Some b \<Rightarrow> Some b)\<rparr>"

text \<open>
  A history entry is the string \<open>JSON.stringify({videoTrack, audioTracks, selectedClipId,
  playbackTime, zoom})\<close>. The model keeps the serialised content as a record: on finite
  numbers, strings and booleans \<open>JSON.stringify\<close> writes the fields in a fixed order and
  \<open>JSON.parse\<close> reads the same values back, so two entries are the same string exactly
  when they hold the same content.
\<close>

record Snapshot =
  snap_videoTrack :: "Clip list"
  snap_audioTracks :: "Clip list list"
  snap_selectedClipId :: "string option"
  snap_playbackTime :: real
  snap_zoom :: real

record StateService =
  media :: "MediaItem list"
  videoTrack :: "Clip list"
  audioTracks :: "Clip list list"
  playbackTime :: real
  isPlaying :: bool
  zoom :: real
  selectedClipId :: "string option"
  historyStack :: "Snapshot list"
  redoStack :: "Snapshot list"

definition initial :: StateService where
  "initial = \<lparr>media = [], videoTrack = [], audioTracks = [[], []], playbackTime = 0,
     isPlaying = False, zoom = 20, selectedClipId = None, historyStack = [],
     redoStack = []\<rparr>"

subsection \<open>History: saveState, undo, redo, restoreState\<close>

definition stringify :: "StateService \<Rightarrow> Snapshot" where
  "stringify s = \<lparr>snap_videoTrack = videoTrack s, snap_audioTracks = audioTracks s,
     snap_selectedClipId = selectedClipId s, snap_playbackTime = playbackTime s,
     snap_zoom = zoom s\<rparr>"

text \<open>\<open>push\<close> appends at the end, \<open>pop\<close> takes the last element, \<open>shift\<close> drops the first.\<close>

definition saveState :: "StateService \<Rightarrow> StateService" where
  "saveState s =
     (let snapshot = stringify s in
      if length (historyStack s) > 0 \<and> last (historyStack s) = snapshot then s
      else
        let pushed = historyStack s @ [snapshot] in
        s\<lparr>historyStack := (if length pushed > 50 then tl pushed else pushed),
          redoStack := []\<rparr>)"

definition restoreState :: "Snapshot \<Rightarrow> StateService \<Rightarrow> StateService" where
  "restoreState snapshot s =
     s\<lparr>videoTrack := snap_videoTrack snapshot, audioTracks := snap_audioTracks snapshot,
       selectedClipId := snap_selectedClipId snapshot,
       playbackTime := snap_playbackTime snapshot, zoom := snap_zoom snapshot\<rparr>"

definition undo :: "StateService \<Rightarrow> StateService" where
  "undo s =
     (if length (historyStack s) = 0 then s
      else
        let currentSnapshot = stringify s;
            s1 = s\<lparr>redoStack := redoStack s @ [currentSnapshot]\<rparr>;
            snapshot = last (historyStack s1);
            s2 = s1\<lparr>historyStack := butlast (historyStack s1)\<rparr>
        in restoreState snapshot s2)"

definition redo :: "StateService \<Rightarrow> StateService" where
  "redo s =
     (if length (redoStack s) = 0 then s
      else
        let currentSnapshot = stringify s;
            s1 = s\<lparr>historyStack := historyStack s @ [currentSnapshot]\<rparr>;
            snapshot = last (redoStack s1);
            s2 = s1\<lparr>redoStack := butlast (redoStack s1)\<rparr>
        in restoreState snapshot s2)"

subsection \<open>Array helpers of the source\<close>

text \<open>\<open>Array.prototype.find\<close> and \<open>findIndex\<close>: the first element (index) that satisfies
  the test; \<open>undefined\<close> and \<open>-1\<close> are \<open>None\<close>.\<close>

fun findIndexFrom :: "('a \<Rightarrow> bool) \<Rightarrow> 'a list \<Rightarrow> nat \<Rightarrow> nat option" where
  "findIndexFrom p [] i = None"
| "findIndexFrom p (x # xs) i = (if p x then Some i else findIndexFrom p xs (Suc i))"

definition findIndex :: "('a \<Rightarrow> bool) \<Rightarrow> 'a list \<Rightarrow> nat option" where
  "findIndex p xs = findIndexFrom p xs 0"

text \<open>\<open>reduce((a, b) => (a.startTime + a.duration > b.startTime + b.duration ? a : b))\<close>
  on a non-empty array: the clip that ends last.\<close>

definition endsLater :: "Clip \<Rightarrow> Clip \<Rightarrow> Clip" where
  "endsLater a b = (if startTime a + duration a > startTime b + duration b then a else b)"

definition lastClipOf :: "Clip list \<Rightarrow> Clip option" where
  "lastClipOf clips =
     (case clips of [] \<Rightarrow> None | c # cs \<Rightarrow> Some (foldl endsLater c cs))"

text \<open>Decimal digits of a number, as \<open>'clip_' + Date.now()\<close> writes them.\<close>

fun decimal :: "nat \<Rightarrow> string" where
  "decimal n =
     (if n < 10 then [char_of (48 + n)]
      else decimal (n div 10) @ [char_of (48 + n mod 10)])"

text \<open>
  Identifiers come from the clock and the random generator: \<open>now\<close> is the value of
  \<open>Date.now()\<close> and \<open>rnd\<close> the five characters
  \<open>Math.random().toString(36).substr(2, 5)\<close>; both are inputs of the model.
\<close>

definition newClipId :: "nat \<Rightarrow> string \<Rightarrow> string" where
  "newClipId now rnd = ''clip_'' @ decimal now @ rnd"

subsection \<open>Operations that may throw\<close>

text \<open>
  Reading \<open>newAudioTracks[0]\<close> of an empty array gives \<open>undefined\<close>; calling \<open>.some\<close>
  on it, or spreading it, throws a TypeError. The state at that moment (the history save
  has already run) is kept with the error.
\<close>

datatype error = TypeError | DecodeError | IndexSizeError

datatype outcome = Returns StateService | Throws error StateService

fun state_of :: "outcome \<Rightarrow> StateService" where
  "state_of (Returns s) = s"
| "state_of (Throws e s) = s"

subsection \<open>Adding clips\<close>

definition addMedia :: "MediaItem \<Rightarrow> StateService \<Rightarrow> StateService" where
  "addMedia item s = s\<lparr>media := media s @ [item]\<rparr>"

definition addToTimelineSmart :: "MediaItem \<Rightarrow> nat \<Rightarrow> string \<Rightarrow> StateService \<Rightarrow> outcome" where
  "addToTimelineSmart item now rnd s0 =
     (let s = saveState s0;
          clip = \<lparr>clip_id = newClipId now rnd, mediaId = media_id item, startTime = 0,
                  duration = media_duration item, offset = 0, clip_type = media_type item,
                  muted = False, volume = 1, stabilized = None\<rparr>
      in if media_type item = Video then
           let start = (case lastClipOf (videoTrack s) of
                          None \<Rightarrow> 0 | Some l \<Rightarrow> startTime l + duration l)
           in Returns (s\<lparr>videoTrack := videoTrack s @ [clip\<lparr>startTime := start\<rparr>]\<rparr>)
         else
           (case audioTracks s of
              [] \<Rightarrow> Throws TypeError s
            | trackClips # rest \<Rightarrow>
                let potentialStart = (case lastClipOf trackClips of
                                        None \<Rightarrow> 0 | Some l \<Rightarrow> startTime l + duration l)
                in Returns (s\<lparr>audioTracks :=
                     (trackClips @ [clip\<lparr>startTime := potentialStart\<rparr>]) # rest\<rparr>)))"

definition checkCollision :: "Clip list \<Rightarrow> Clip \<Rightarrow> bool" where
  "checkCollision trackClips newClip =
     list_ex (\<lambda>c. clip_id c \<noteq> clip_id newClip \<and>
        \<not> (startTime newClip \<ge> startTime c + duration c \<or>
           startTime newClip + duration newClip \<le> startTime c)) trackClips"

text \<open>The clip literal of \<open>addClipToTimeline\<close>; \<open>Math.max(0, startTime)\<close> is its start.\<close>

definition makeClip :: "MediaItem \<Rightarrow> real \<Rightarrow> nat \<Rightarrow> string \<Rightarrow> Clip" where
  "makeClip mediaItem start now rnd =
     \<lparr>clip_id = newClipId now rnd, mediaId = media_id mediaItem,
      startTime = max 0 start, duration = media_duration mediaItem, offset = 0,
      clip_type = media_type mediaItem, muted = False, volume = 1, stabilized = None\<rparr>"

definition addClipToTimeline ::
  "MediaItem \<Rightarrow> real \<Rightarrow> nat \<Rightarrow> string \<Rightarrow> StateService \<Rightarrow> outcome" where
  "addClipToTimeline mediaItem start now rnd s0 =
     (let s = saveState s0;
          clip = makeClip mediaItem start now rnd
      in if media_type mediaItem = Video then
           Returns (s\<lparr>videoTrack := videoTrack s @ [clip]\<rparr>)
         else
           (case audioTracks s of
              [] \<Rightarrow> Throws TypeError s
            | lane0 # rest \<Rightarrow>
                let newAudioTracks = audioTracks s;
                    hasCollision = checkCollision lane0 clip;
                    targetTrackIndex =
                      (if hasCollision \<and> length newAudioTracks > 1 then 1 else 0::nat)
                in Returns (s\<lparr>audioTracks :=
                     newAudioTracks[targetTrackIndex :=
                       (newAudioTracks ! targetTrackIndex) @ [clip]]\<rparr>)))"

subsection \<open>Updating, deleting and splitting clips\<close>

definition hasId :: "string \<Rightarrow> Clip \<Rightarrow> bool" where
  "hasId clipId c = (clip_id c = clipId)"

definition updateTrack :: "string \<Rightarrow> ClipPatch \<Rightarrow> Clip list \<Rightarrow> Clip list" where
  "updateTrack clipId updates track =
     (case findIndex (hasId clipId) track of
        None \<Rightarrow> track
      | Some idx \<Rightarrow> track[idx := spread (track ! idx) updates])"

definition updateClip :: "string \<Rightarrow> ClipPatch \<Rightarrow> StateService \<Rightarrow> StateService" where
  "updateClip clipId updates s =
     (case findIndex (hasId clipId) (videoTrack s) of
        Some vIndex \<Rightarrow>
          s\<lparr>videoTrack := (videoTrack s)[vIndex := spread (videoTrack s ! vIndex) updates]\<rparr>
      | None \<Rightarrow>
          let aTracks = audioTracks s;
              found = list_ex (\<lambda>track. findIndex (hasId clipId) track \<noteq> None) aTracks;
              newATracks = map (updateTrack clipId updates) aTracks
          in if found then s\<lparr>audioTracks := newATracks\<rparr> else s)"

definition deleteClip :: "string \<Rightarrow> StateService \<Rightarrow> StateService" where
  "deleteClip clipId s0 =
     (let s = saveState s0;
          s1 = s\<lparr>videoTrack := filter (\<lambda>c. clip_id c \<noteq> clipId) (videoTrack s)\<rparr>;
          s2 = s1\<lparr>audioTracks := map (filter (\<lambda>c. clip_id c \<noteq> clipId)) (audioTracks s1)\<rparr>
      in if selectedClipId s2 = Some clipId then s2\<lparr>selectedClipId := None\<rparr> else s2)"

fun findInTracks :: "string \<Rightarrow> Clip list list \<Rightarrow> Clip option" where
  "findInTracks clipId [] = None"
| "findInTracks clipId (t # ts) =
     (case find (hasId clipId) t of Some a \<Rightarrow> Some a | None \<Rightarrow> findInTracks clipId ts)"

definition findClip :: "string \<Rightarrow> StateService \<Rightarrow> Clip option" where
  "findClip clipId s =
     (case find (hasId clipId) (videoTrack s) of
        Some v \<Rightarrow> Some v
      | None \<Rightarrow> findInTracks clipId (audioTracks s))"

text \<open>\<open>if (!clipId) return\<close>: \<open>null\<close> and the empty string are both falsy.\<close>

definition splitClip :: "nat \<Rightarrow> StateService \<Rightarrow> StateService" where
  "splitClip now s =
     (case selectedClipId s of
        None \<Rightarrow> s
      | Some clipId \<Rightarrow>
          if clipId = [] then s
          else
            (case findClip clipId s of
               None \<Rightarrow> s
             | Some clip \<Rightarrow>
                 let currentTime = playbackTime s;
                     relTime = currentTime - startTime clip
                 in if relTime > 0.05 \<and> relTime < duration clip - 0.05 then
                      let s1 = saveState s;
                          newClip = clip\<lparr>clip_id := ''clip_'' @ decimal now,
                                         startTime := currentTime,
                                         duration := duration clip - relTime,
                                         offset := offset clip + relTime\<rparr>;
                          s2 = updateClip (clip_id clip)
                                 (no_patch\<lparr>patch_duration := Some relTime\<rparr>) s1
                      in if clip_type clip = Video then
                           s2\<lparr>videoTrack := videoTrack s2 @ [newClip]\<rparr>
                         else
                           s2\<lparr>audioTracks :=
                                map (\<lambda>track. if list_ex (hasId (clip_id clip)) track
                                              then track @ [newClip] else track)
                                    (audioTracks s2)\<rparr>
                    else s))"

subsection \<open>Commands of the service\<close>

text \<open>
  What the components of the editor can do to the service: call one of its methods, or
  write one of its public signals (\<open>playbackTime.set\<close>, \<open>zoom.update\<close>,
  \<open>selectedClipId.set\<close>, \<open>isPlaying.update\<close>). The two stacks are private and only
  \<open>saveState\<close>, \<open>undo\<close> and \<open>redo\<close> touch them. A command that throws leaves the state
  it had reached.
\<close>

datatype Command =
    AddMedia MediaItem
  | AddToTimelineSmart MediaItem nat string
  | AddClipToTimeline MediaItem real nat string
  | UpdateClip string ClipPatch
  | DeleteClip string
  | SplitClip nat
  | SaveState
  | Undo
  | Redo
  | SetPlaybackTime real
  | SetZoom real
  | SetSelectedClipId "string option"
  | SetIsPlaying bool

fun exec :: "StateService \<Rightarrow> Command \<Rightarrow> StateService" where
  "exec s (AddMedia item) = addMedia item s"
| "exec s (AddToTimelineSmart item now rnd) = state_of (addToTimelineSmart item now rnd s)"
| "exec s (AddClipToTimeline item start now rnd) =
     state_of (addClipToTimeline item start now rnd s)"
| "exec s (UpdateClip clipId updates) = updateClip clipId updates s"
| "exec s (DeleteClip clipId) = deleteClip clipId s"
| "exec s (SplitClip now) = splitClip now s"
| "exec s SaveState = saveState s"
| "exec s Undo = undo s"
| "exec s Redo = redo s"
| "exec s (SetPlaybackTime t) = s\<lparr>playbackTime := t\<rparr>"
| "exec s (SetZoom z) = s\<lparr>zoom := z\<rparr>"
| "exec s (SetSelectedClipId sel) = s\<lparr>selectedClipId := sel\<rparr>"
| "exec s (SetIsPlaying b) = s\<lparr>isPlaying := b\<rparr>"

definition run :: "Command list \<Rightarrow> StateService" where
  "run cmds = foldl exec initial cmds"

text \<open>All lanes of the timeline: the video track, then the audio tracks.\<close>

definition lanes :: "StateService \<Rightarrow> Clip list list" where
  "lanes s = videoTrack s # audioTracks s"

section \<open>The thumbnail pipeline of script.js\<close>

text \<open>
  \<open>drawVideoThumbnails\<close> asks for one thumbnail per strip position; \<open>captureThumbnail\<close>
  queues a task and \<open>processThumbQueue\<close> seeks the one shared video element, task by
  task. The browser answers a seek with a \<open>seeked\<close> or an \<open>error\<close> event and runs the
  timers set by \<open>setTimeout\<close>; these arrive as events of the model. A listener is a
  closure over its task, so every task carries the number of its creation. The data URL
  drawn from the shared element is \<open>Frame src time\<close>, the source and position it shows.
  \<open>seekLog\<close> and \<open>servedLog\<close> observe the run and have no counterpart in the source: the
  seeks commanded on the shared element (one for every capture) and the cache keys
  answered from the cache.
\<close>

record ThumbTask =
  task_no :: nat
  task_url :: string
  task_time :: real
  task_cacheKey :: string

datatype Frame = Frame string real

record ThumbState =
  thumbnailCache :: "(string \<times> Frame) list"
  thumbQueue :: "ThumbTask list"
  isProcessingThumbs :: bool
  statePlaying :: bool
  sharedSrc :: string
  sharedTime :: real
  seekedListeners :: "ThumbTask list"
  errorListeners :: "ThumbTask list"
  pendingTimers :: nat
  tasksCreated :: nat
  seekLog :: "(string \<times> real) list"
  servedLog :: "string list"

definition thumbsInitial :: ThumbState where
  "thumbsInitial = \<lparr>thumbnailCache = [], thumbQueue = [], isProcessingThumbs = False,
     statePlaying = False, sharedSrc = [], sharedTime = 0, seekedListeners = [],
     errorListeners = [], pendingTimers = 0, tasksCreated = 0, seekLog = [],
     servedLog = []\<rparr>"

text \<open>The template literal \<open>`${n}`\<close> of an integer.\<close>

definition showInt :: "int \<Rightarrow> string" where
  "showInt n = (if n < 0 then ''-'' @ decimal (nat (- n)) else decimal (nat n))"

text \<open>\<open>`${media.id}_${Math.floor(thumbTime * 10)}`\<close>: the cache key, by steps of 0.1 s.\<close>

definition cacheKeyOf :: "string \<Rightarrow> real \<Rightarrow> string" where
  "cacheKeyOf mediaIdent thumbTime = mediaIdent @ ''_'' @ showInt \<lfloor>thumbTime * 10\<rfloor>"

definition processThumbQueue :: "ThumbState \<Rightarrow> ThumbState" where
  "processThumbQueue s =
     (if statePlaying s then s\<lparr>pendingTimers := pendingTimers s + 1\<rparr>
      else if isProcessingThumbs s \<or> length (thumbQueue s) = 0 then s
      else
        (case thumbQueue s of
           [] \<Rightarrow> s
         | task # shifted \<Rightarrow>
             let kept = (if length shifted > 50
                         then drop (length shifted - 20) shifted else shifted)
             in s\<lparr>isProcessingThumbs := True,
                  thumbQueue := kept,
                  sharedSrc := task_url task,
                  sharedTime := task_time task,
                  seekLog := seekLog s @ [(task_url task, task_time task)],
                  seekedListeners := seekedListeners s @ [task],
                  errorListeners := errorListeners s @ [task]\<rparr>))"

definition captureThumbnail :: "string \<Rightarrow> real \<Rightarrow> string \<Rightarrow> ThumbState \<Rightarrow> ThumbState" where
  "captureThumbnail url time cacheKey s =
     processThumbQueue
       (s\<lparr>thumbQueue := thumbQueue s @
              [\<lparr>task_no = tasksCreated s, task_url = url, task_time = time,
                task_cacheKey = cacheKey\<rparr>],
          tasksCreated := tasksCreated s + 1\<rparr>)"

text \<open>The body of the loop of \<open>drawVideoThumbnails\<close> for one thumbnail: look in the cache
  first, ask for a capture otherwise.\<close>

definition requestThumbnail :: "string \<Rightarrow> string \<Rightarrow> real \<Rightarrow> ThumbState \<Rightarrow> ThumbState" where
  "requestThumbnail mediaIdent url thumbTime s =
     (let cacheKey = cacheKeyOf mediaIdent thumbTime in
      case map_of (thumbnailCache s) cacheKey of
        Some dataURL \<Rightarrow> s\<lparr>servedLog := servedLog s @ [cacheKey]\<rparr>
      | None \<Rightarrow> captureThumbnail url thumbTime cacheKey s)"

definition onSeek :: "ThumbTask \<Rightarrow> ThumbState \<Rightarrow> ThumbState" where
  "onSeek task s =
     (let dataURL = Frame (sharedSrc s) (sharedTime s);
          s1 = s\<lparr>thumbnailCache := (task_cacheKey task, dataURL) # thumbnailCache s,
                 seekedListeners := removeAll task (seekedListeners s),
                 isProcessingThumbs := False\<rparr>
      in if length (thumbQueue s1) > 0
         then s1\<lparr>pendingTimers := pendingTimers s1 + 1\<rparr> else s1)"

definition onError :: "ThumbTask \<Rightarrow> ThumbState \<Rightarrow> ThumbState" where
  "onError task s =
     s\<lparr>seekedListeners := removeAll task (seekedListeners s),
       errorListeners := removeAll task (errorListeners s),
       isProcessingThumbs := False,
       pendingTimers := pendingTimers s + 1\<rparr>"

text \<open>An event runs the listeners registered for it when it is dispatched, in order; a
  listener added with \<open>{ once: true }\<close> is taken off before it runs, and one that has been
  removed meanwhile does not run.\<close>

definition fireSeeked :: "ThumbState \<Rightarrow> ThumbTask \<Rightarrow> ThumbState" where
  "fireSeeked s task =
     (if task \<in> set (seekedListeners s)
      then onSeek task (s\<lparr>seekedListeners := removeAll task (seekedListeners s)\<rparr>)
      else s)"

definition fireError :: "ThumbState \<Rightarrow> ThumbTask \<Rightarrow> ThumbState" where
  "fireError s task =
     (if task \<in> set (errorListeners s)
      then onError task (s\<lparr>errorListeners := removeAll task (errorListeners s)\<rparr>)
      else s)"

datatype ThumbEvent =
    Request string string real
  | Seeked
  | ErrorEvent
  | Timer
  | SetPlaying bool

fun thumbStep :: "ThumbState \<Rightarrow> ThumbEvent \<Rightarrow> ThumbState" where
  "thumbStep s (Request mediaIdent url thumbTime) = requestThumbnail mediaIdent url thumbTime s"
| "thumbStep s Seeked = foldl fireSeeked s (seekedListeners s)"
| "thumbStep s ErrorEvent = foldl fireError s (errorListeners s)"
| "thumbStep s Timer =
     (if pendingTimers s = 0 then s
      else processThumbQueue (s\<lparr>pendingTimers := pendingTimers s - 1\<rparr>))"
| "thumbStep s (SetPlaying b) = s\<lparr>statePlaying := b\<rparr>"

definition thumbRun :: "ThumbEvent list \<Rightarrow> ThumbState" where
  "thumbRun events = foldl thumbStep thumbsInitial events"

section \<open>The editor of script.js: history and silence removal\<close>

text \<open>
  script.js keeps one video track and one audio track, each an array of clips. Its clips
  have no volume; \<open>removeSilence\<close> tags the clips it makes with \<open>isSilence\<close>. The history
  holds snapshot objects (deep copies made with \<open>JSON.parse(JSON.stringify(...))\<close>).
\<close>

record JClip =
  idJ :: string
  mediaIdJ :: string
  startTimeJ :: real
  durationJ :: real
  offsetJ :: real
  typeJ :: kind
  mutedJ :: bool
  isSilence :: "bool option"

record JSnapshot =
  snapJ_video :: "JClip list"
  snapJ_audio :: "JClip list"
  snapJ_selectedClipId :: "string option"
  snapJ_playbackTime :: real
  snapJ_zoom :: real

record Editor =
  mediaJ :: "MediaItem list"
  tracksVideo :: "JClip list"
  tracksAudio :: "JClip list"
  playbackTimeJ :: real
  isPlayingJ :: bool
  zoomJ :: real
  selectedClipIdJ :: "string option"
  historyStackJ :: "JSnapshot list"
  redoStackJ :: "JSnapshot list"

definition editorInitial :: Editor where
  "editorInitial = \<lparr>mediaJ = [], tracksVideo = [], tracksAudio = [], playbackTimeJ = 0,
     isPlayingJ = False, zoomJ = 10, selectedClipIdJ = None, historyStackJ = [],
     redoStackJ = []\<rparr>"

definition snapshotJ :: "Editor \<Rightarrow> JSnapshot" where
  "snapshotJ s = \<lparr>snapJ_video = tracksVideo s, snapJ_audio = tracksAudio s,
     snapJ_selectedClipId = selectedClipIdJ s, snapJ_playbackTime = playbackTimeJ s,
     snapJ_zoom = zoomJ s\<rparr>"

text \<open>\<open>saveState\<close> of script.js pushes every time; there is no comparison with the top.\<close>

definition saveState_js :: "Editor \<Rightarrow> Editor" where
  "saveState_js s =
     (let pushed = historyStackJ s @ [snapshotJ s] in
      s\<lparr>historyStackJ := (if length pushed > 50 then tl pushed else pushed),
        redoStackJ := []\<rparr>)"

text \<open>\<open>restoreState\<close> ends with \<open>seek(state.playbackTime)\<close>, which stores
  \<open>Math.max(0, time)\<close>.\<close>

definition restoreState_js :: "JSnapshot \<Rightarrow> Editor \<Rightarrow> Editor" where
  "restoreState_js snapshot s =
     s\<lparr>tracksVideo := snapJ_video snapshot, tracksAudio := snapJ_audio snapshot,
       selectedClipIdJ := snapJ_selectedClipId snapshot,
       zoomJ := snapJ_zoom snapshot,
       playbackTimeJ := max 0 (snapJ_playbackTime snapshot)\<rparr>"

definition undo_js :: "Editor \<Rightarrow> Editor" where
  "undo_js s =
     (if length (historyStackJ s) = 0 then s
      else
        let currentSnapshot = snapshotJ s;
            s1 = s\<lparr>redoStackJ := redoStackJ s @ [currentSnapshot]\<rparr>;
            snapshot = last (historyStackJ s1);
            s2 = s1\<lparr>historyStackJ := butlast (historyStackJ s1)\<rparr>
        in restoreState_js snapshot s2)"

definition redo_js :: "Editor \<Rightarrow> Editor" where
  "redo_js s =
     (if length (redoStackJ s) = 0 then s
      else
        let currentSnapshot = snapshotJ s;
            s1 = s\<lparr>historyStackJ := historyStackJ s @ [currentSnapshot]\<rparr>;
            snapshot = last (redoStackJ s1);
            s2 = s1\<lparr>redoStackJ := butlast (redoStackJ s1)\<rparr>
        in restoreState_js snapshot s2)"

subsection \<open>Finding the speech in the decoded audio\<close>

text \<open>
  The decoded \<open>AudioBuffer\<close>: its sample rate and one array of samples per channel. A
  read past the end of a channel gives \<open>undefined\<close>, whose absolute value is NaN and
  compares false.
\<close>

record AudioBuffer =
  sampleRate :: real
  channelData :: "real list list"

record Chunk =
  chunk_start :: real
  chunk_end :: real

definition amplitudeAt :: "real list list \<Rightarrow> nat \<Rightarrow> real" where
  "amplitudeAt channels i =
     foldl (\<lambda>amplitude ch. if i < length ch \<and> \<bar>ch ! i\<bar> > amplitude then \<bar>ch ! i\<bar>
                            else amplitude) 0 channels"

text \<open>One turn of the loop over the samples; the state is \<open>isSilent\<close>,
  \<open>lastChangeIndex\<close> and \<open>chunks\<close>. The threshold is 0.005.\<close>

definition scanStep ::
  "AudioBuffer \<Rightarrow> bool \<times> nat \<times> Chunk list \<Rightarrow> nat \<Rightarrow> bool \<times> nat \<times> Chunk list" where
  "scanStep buf st i =
     (case st of (isSilent, lastChangeIndex, chunks) \<Rightarrow>
        if amplitudeAt (channelData buf) i > 0.005 then
          (if isSilent then (False, i, chunks) else st)
        else
          (if \<not> isSilent then
             (True, i, chunks @ [\<lparr>chunk_start = real lastChangeIndex / sampleRate buf,
                                   chunk_end = real i / sampleRate buf\<rparr>])
           else st))"

definition detectChunks :: "AudioBuffer \<Rightarrow> nat \<Rightarrow> Chunk list" where
  "detectChunks buf len =
     (case foldl (scanStep buf) (True, 0, []) [0..<len] of
        (isSilent, lastChangeIndex, chunks) \<Rightarrow>
          if \<not> isSilent then
            chunks @ [\<lparr>chunk_start = real lastChangeIndex / sampleRate buf,
                       chunk_end = real len / sampleRate buf\<rparr>]
          else chunks)"

subsection \<open>Speech and silence segments of the clip\<close>

datatype segKind = SilenceSeg | SpeechSeg

record Segment =
  seg_start :: real
  seg_end :: real
  seg_type :: segKind

text \<open>One turn of \<open>visibleChunks.forEach\<close>; the state is \<open>cursor\<close> and \<open>allSegments\<close>.\<close>

definition segmentStep :: "real \<Rightarrow> real \<times> Segment list \<Rightarrow> Chunk \<Rightarrow> real \<times> Segment list" where
  "segmentStep endOfClip st chunk =
     (case st of (cursor, allSegments) \<Rightarrow>
        let gapStart = cursor;
            gapEnd = max cursor (chunk_start chunk);
            segs1 = (if gapEnd > gapStart
                     then allSegments @ [\<lparr>seg_start = gapStart, seg_end = gapEnd,
                                            seg_type = SilenceSeg\<rparr>]
                     else allSegments);
            speechStart = max cursor (chunk_start chunk);
            speechEnd = min endOfClip (chunk_end chunk);
            segs2 = (if speechEnd > speechStart
                     then segs1 @ [\<lparr>seg_start = speechStart, seg_end = speechEnd,
                                      seg_type = SpeechSeg\<rparr>]
                     else segs1)
        in (speechEnd, segs2))"

definition allSegmentsOf :: "JClip \<Rightarrow> Chunk list \<Rightarrow> Segment list" where
  "allSegmentsOf clip visibleChunks =
     (let endOfClip = offsetJ clip + durationJ clip in
      case foldl (segmentStep endOfClip) (offsetJ clip, []) visibleChunks of
        (cursor, allSegments) \<Rightarrow>
          if cursor < endOfClip
          then allSegments @ [\<lparr>seg_start = cursor, seg_end = endOfClip,
                                 seg_type = SilenceSeg\<rparr>]
          else allSegments)"

subsection \<open>removeSilence\<close>

text \<open>
  The identifier of a new clip is \<open>'split_' + Date.now() + Math.random()\<close>: \<open>ids k\<close> is
  the identifier drawn for the clip made \<open>k\<close>-th in the call. \<open>makeClips\<close> is the loop
  \<open>allSegments.forEach\<close> of step 1; its state is \<open>currentTimelinePos\<close>.
\<close>

fun makeClips :: "JClip \<Rightarrow> (nat \<Rightarrow> string) \<Rightarrow> Segment list \<Rightarrow> real \<Rightarrow> nat \<Rightarrow> JClip list" where
  "makeClips clip ids [] currentTimelinePos k = []"
| "makeClips clip ids (seg # segs) currentTimelinePos k =
     (let duration = seg_end seg - seg_start seg in
      if duration > 0.05 then
        \<lparr>idJ = ids k, mediaIdJ = mediaIdJ clip, startTimeJ = currentTimelinePos,
         durationJ = duration, offsetJ = seg_start seg, typeJ = typeJ clip,
         mutedJ = mutedJ clip, isSilence = Some (seg_type seg = SilenceSeg)\<rparr>
        # makeClips clip ids segs (currentTimelinePos + duration) (Suc k)
      else makeClips clip ids segs currentTimelinePos k)"

text \<open>\<open>!c.isSilence\<close>: a clip without the tag is kept.\<close>

definition notSilence :: "JClip \<Rightarrow> bool" where
  "notSilence c = (isSilence c \<noteq> Some True)"

text \<open>\<open>remainingClips.forEach\<close> of step 2; its state is \<open>ripplePos\<close>.\<close>

fun ripple :: "real \<Rightarrow> JClip list \<Rightarrow> JClip list" where
  "ripple ripplePos [] = []"
| "ripple ripplePos (c # cs) =
     c\<lparr>startTimeJ := ripplePos\<rparr> # ripple (ripplePos + durationJ c) cs"

definition trackOf :: "kind \<Rightarrow> Editor \<Rightarrow> JClip list" where
  "trackOf trackType s = (case trackType of Video \<Rightarrow> tracksVideo s | Audio \<Rightarrow> tracksAudio s)"

definition setTrack :: "kind \<Rightarrow> JClip list \<Rightarrow> Editor \<Rightarrow> Editor" where
  "setTrack trackType clips s =
     (case trackType of Video \<Rightarrow> s\<lparr>tracksVideo := clips\<rparr>
                      | Audio \<Rightarrow> s\<lparr>tracksAudio := clips\<rparr>)"

text \<open>
  Step 1 saves, takes the clip out and appends the speech and silence parts. Step 2 saves
  again, filters the silence out of the track and moves the kept new clips together: the
  track then is \<open>before\<close>, the clips left when the original was taken out, followed by
  the new clips, and the kept new clips are the objects \<open>remainingClips\<close> moves.
\<close>

definition withoutClip :: "kind \<Rightarrow> JClip \<Rightarrow> Editor \<Rightarrow> JClip list" where
  "withoutClip trackType clip s = filter (\<lambda>c. idJ c \<noteq> idJ clip) (trackOf trackType s)"

definition splitIntoSegments ::
  "kind \<Rightarrow> JClip \<Rightarrow> JClip list \<Rightarrow> Editor \<Rightarrow> Editor" where
  "splitIntoSegments trackType clip newClips s =
     (let s1 = saveState_js s;
          s2 = setTrack trackType (withoutClip trackType clip s1) s1
      in setTrack trackType (trackOf trackType s2 @ newClips) s2)"

definition deleteSilence ::
  "kind \<Rightarrow> JClip \<Rightarrow> JClip list \<Rightarrow> JClip list \<Rightarrow> Editor \<Rightarrow> Editor" where
  "deleteSilence trackType clip before newClips s =
     (let s1 = saveState_js s;
          remainingClips = filter notSilence newClips
      in setTrack trackType
           (filter notSilence before @ ripple (startTimeJ clip) remainingClips) s1)"

datatype Notice = SelectAClip | NoSpeechDetected | NoSpeechInClip | CouldNotProcess

definition findSelected :: "string \<Rightarrow> Editor \<Rightarrow> (kind \<times> JClip) option" where
  "findSelected sel s =
     (case find (\<lambda>c. idJ c = sel) (tracksVideo s) of
        Some clip \<Rightarrow> Some (Video, clip)
      | None \<Rightarrow>
          (case find (\<lambda>c. idJ c = sel) (tracksAudio s) of
             Some clip \<Rightarrow> Some (Audio, clip)
           | None \<Rightarrow> None))"

text \<open>
  \<open>decoded\<close> is what \<open>fetch\<close> and \<open>decodeAudioData\<close> deliver, \<open>None\<close> when one of them
  fails; the failure, like the read of \<open>channels[0]\<close> of a buffer without channels, is
  caught and reported. The function is described for a call that no other command
  interleaves while the audio is decoded. \<open>analyseSilence\<close> is the part of \<open>removeSilence\<close>
  that only reads the state: it ends with a return (and perhaps an alert), or with the
  track, the clip and the segments that the second part applies.
\<close>

definition analyseSilence ::
  "AudioBuffer option \<Rightarrow> Editor \<Rightarrow> Notice option + kind \<times> JClip \<times> Segment list" where
  "analyseSilence decoded s =
     (case selectedClipIdJ s of
        None \<Rightarrow> Inl (Some SelectAClip)
      | Some sel \<Rightarrow>
          if sel = [] then Inl (Some SelectAClip)
          else
            (case findSelected sel s of
               None \<Rightarrow> Inl None
             | Some (trackType, clip) \<Rightarrow>
                 (case find (\<lambda>m. media_id m = mediaIdJ clip) (mediaJ s) of
                    None \<Rightarrow> Inl None
                  | Some mediaItem \<Rightarrow>
                      (case decoded of
                         None \<Rightarrow> Inl (Some CouldNotProcess)
                       | Some audioBuffer \<Rightarrow>
                           (case channelData audioBuffer of
                              [] \<Rightarrow> Inl (Some CouldNotProcess)
                            | channel0 # others \<Rightarrow>
                                let chunks = detectChunks audioBuffer (length channel0) in
                                if length chunks = 0 then Inl (Some NoSpeechDetected)
                                else
                                  let visibleChunks =
                                        filter (\<lambda>chunk. chunk_end chunk > offsetJ clip \<and>
                                                  chunk_start chunk < offsetJ clip + durationJ clip)
                                               chunks
                                  in if length visibleChunks = 0
                                     then Inl (Some NoSpeechInClip)
                                     else Inr (trackType, clip,
                                               allSegmentsOf clip visibleChunks))))))"

definition removeSilence ::
  "AudioBuffer option \<Rightarrow> (nat \<Rightarrow> string) \<Rightarrow> Editor \<Rightarrow> Editor \<times> Notice option" where
  "removeSilence decoded ids s =
     (case analyseSilence decoded s of
        Inl notice \<Rightarrow> (s, notice)
      | Inr (trackType, clip, allSegments) \<Rightarrow>
          let newClips = makeClips clip ids allSegments (startTimeJ clip) 0;
              before = withoutClip trackType clip s;
              s1 = splitIntoSegments trackType clip newClips s
          in (deleteSilence trackType clip before newClips s1, None))"

text \<open>What is left of a history after a push and the \<open>shift\<close> that bounds it.\<close>

definition capped :: "'a list \<Rightarrow> 'a list" where
  "capped h = (if length h > 50 then tl h else h)"

text \<open>
  A two-second recording, one second of a loud tone and one second of silence, decoded
  at 8000 samples per second, and an editor that holds it as one selected audio clip
  starting at 3 s.
\<close>

definition voice :: MediaItem where
  "voice = \<lparr>media_id = ''m3'', media_url = Some ''blob:voice'', media_type = Audio,
     media_name = ''voice.webm'', media_duration = 2, videoWidth = None,
     videoHeight = None, recording = None\<rparr>"

definition talk :: AudioBuffer where
  "talk = \<lparr>sampleRate = 8000, channelData = [replicate 8000 (1 / 2) @ replicate 8000 0]\<rparr>"

definition voiceClip :: JClip where
  "voiceClip = \<lparr>idJ = ''clip_5'', mediaIdJ = ''m3'', startTimeJ = 3, durationJ = 2,
     offsetJ = 0, typeJ = Audio, mutedJ = False, isSilence = None\<rparr>"

definition voice_selected :: Editor where
  "voice_selected = editorInitial\<lparr>mediaJ := [voice], tracksAudio := [voiceClip],
     selectedClipIdJ := Some ''clip_5''\<rparr>"

definition splitIds :: "nat \<Rightarrow> string" where
  "splitIds k = ''split_'' @ decimal (1700 + k)"

text \<open>The two parts of the recording as clips: the speech and the silence.\<close>

definition speechPart :: JClip where
  "speechPart = \<lparr>idJ = splitIds 0, mediaIdJ = ''m3'', startTimeJ = 3, durationJ = 1,
     offsetJ = 0, typeJ = Audio, mutedJ = False, isSilence = Some False\<rparr>"

definition silencePart :: JClip where
  "silencePart = \<lparr>idJ = splitIds 1, mediaIdJ = ''m3'', startTimeJ = 4, durationJ = 1,
     offsetJ = 1, typeJ = Audio, mutedJ = False, isSilence = Some True\<rparr>"

section \<open>Double arithmetic\<close>

text \<open>
  A JavaScript number is an IEEE 754 double: the result of an arithmetic operation is the
  exact result rounded to the nearest number with a 53-bit mantissa, the one with an even
  mantissa when two are equally near. \<open>double\<close> is this rounding of a real number, for
  results in the normal range (no overflow to \<open>Infinity\<close>, no subnormal numbers).
  \<open>exponentOf x\<close> is the exponent \<open>e\<close> with \<open>2^e \<le> x < 2^(e+1)\<close> of a positive \<open>x\<close>.
\<close>

fun bitLength :: "nat \<Rightarrow> nat" where
  "bitLength n = (if n = 0 then 0 else Suc (bitLength (n div 2)))"

declare bitLength.simps [simp del]

definition exponentOf :: "real \<Rightarrow> int" where
  "exponentOf x =
     (if 1 \<le> x then int (bitLength (nat \<lfloor>x\<rfloor>)) - 1
      else - int (bitLength (nat (\<lceil>1 / x\<rceil> - 1))))"

definition roundEven :: "real \<Rightarrow> int" where
  "roundEven y =
     (let f = \<lfloor>y\<rfloor> in
      if y - real_of_int f < 1 / 2 then f
      else if y - real_of_int f > 1 / 2 then f + 1
      else if even f then f else f + 1)"

definition double :: "real \<Rightarrow> real" where
  "double x =
     (if x = 0 then 0
      else
        let e = exponentOf \<bar>x\<bar>;
            ulp = (if 52 \<le> e then 2 ^ nat (e - 52) else 1 / 2 ^ nat (52 - e))
        in sgn x * real_of_int (roundEven (\<bar>x\<bar> / ulp)) * ulp)"

section \<open>The second engine (www/script.js): removeSilenceTool\<close>

text \<open>
  This engine has two audio lanes and keeps its history as JSON strings, dropping a
  snapshot equal to the top, like the state service. Its clips are those of script.js
  without the \<open>isSilence\<close> tag. \<open>waveformCache\<close> holds the decoded audio by media identifier.
\<close>

record Snapshot3 =
  snap3_video :: "JClip list"
  snap3_audio :: "JClip list list"
  snap3_selectedClipId :: "string option"
  snap3_playbackTime :: real
  snap3_zoom :: real

record Editor3 =
  media3 :: "MediaItem list"
  video3 :: "JClip list"
  audio3 :: "JClip list list"
  playbackTime3 :: real
  isPlaying3 :: bool
  zoom3 :: real
  selectedClipId3 :: "string option"
  historyStack3 :: "Snapshot3 list"
  redoStack3 :: "Snapshot3 list"
  waveformCache :: "(string \<times> AudioBuffer) list"

definition editor3Initial :: Editor3 where
  "editor3Initial = \<lparr>media3 = [], video3 = [], audio3 = [[], []], playbackTime3 = 0,
     isPlaying3 = False, zoom3 = 20, selectedClipId3 = None, historyStack3 = [],
     redoStack3 = [], waveformCache = []\<rparr>"

definition stringify3 :: "Editor3 \<Rightarrow> Snapshot3" where
  "stringify3 s = \<lparr>snap3_video = video3 s, snap3_audio = audio3 s,
     snap3_selectedClipId = selectedClipId3 s, snap3_playbackTime = playbackTime3 s,
     snap3_zoom = zoom3 s\<rparr>"

definition saveState3 :: "Editor3 \<Rightarrow> Editor3" where
  "saveState3 s =
     (let snapshot = stringify3 s in
      if length (historyStack3 s) > 0 \<and> last (historyStack3 s) = snapshot then s
      else
        let pushed = historyStack3 s @ [snapshot] in
        s\<lparr>historyStack3 := (if length pushed > 50 then tl pushed else pushed),
          redoStack3 := []\<rparr>)"

text \<open>\<open>restoreState\<close> ends with \<open>seek\<close>, which stores \<open>Math.max(0, time)\<close>.\<close>

definition restoreState3 :: "Snapshot3 \<Rightarrow> Editor3 \<Rightarrow> Editor3" where
  "restoreState3 snapshot s =
     s\<lparr>video3 := snap3_video snapshot, audio3 := snap3_audio snapshot,
       selectedClipId3 := snap3_selectedClipId snapshot,
       zoom3 := snap3_zoom snapshot,
       playbackTime3 := max 0 (snap3_playbackTime snapshot)\<rparr>"

definition undo3 :: "Editor3 \<Rightarrow> Editor3" where
  "undo3 s =
     (if length (historyStack3 s) = 0 then s
      else
        let s1 = s\<lparr>redoStack3 := redoStack3 s @ [stringify3 s]\<rparr>;
            json = last (historyStack3 s1);
            s2 = s1\<lparr>historyStack3 := butlast (historyStack3 s1)\<rparr>
        in restoreState3 json s2)"

definition redo3 :: "Editor3 \<Rightarrow> Editor3" where
  "redo3 s =
     (if length (redoStack3 s) = 0 then s
      else
        let s1 = s\<lparr>historyStack3 := historyStack3 s @ [stringify3 s]\<rparr>;
            json = last (redoStack3 s1);
            s2 = s1\<lparr>redoStack3 := butlast (redoStack3 s1)\<rparr>
        in restoreState3 json s2)"

fun findInLanes :: "string \<Rightarrow> JClip list list \<Rightarrow> JClip option" where
  "findInLanes ident [] = None"
| "findInLanes ident (track # tracks) =
     (case find (\<lambda>k. idJ k = ident) track of
        Some c \<Rightarrow> Some c
      | None \<Rightarrow> findInLanes ident tracks)"

definition findClip3 :: "string \<Rightarrow> Editor3 \<Rightarrow> JClip option" where
  "findClip3 ident s =
     (case find (\<lambda>c. idJ c = ident) (video3 s) of
        Some c \<Rightarrow> Some c
      | None \<Rightarrow> findInLanes ident (audio3 s))"

subsection \<open>The speech ranges of the clip\<close>

text \<open>
  Sample positions are integers, \<open>Math.floor\<close> of a time multiplied by the sample rate.
  The rounding of the product decides which sample that is, so the arithmetic of
  \<open>removeSilenceTool\<close> is double arithmetic: every operation on numbers is followed by
  \<open>double\<close>, and a literal such as \<open>0.15\<close> is \<open>double 0.15\<close>. Sums and products of sample
  positions are integers far below \<open>2^53\<close> and exact; the samples themselves are 32-bit
  floats, which are doubles. \<open>Math.abs(data[i])\<close> outside the array is NaN, here \<open>None\<close>:
  it is neither above nor at most the threshold.
\<close>

definition sampleAbs :: "real list \<Rightarrow> int \<Rightarrow> real option" where
  "sampleAbs data i =
     (if 0 \<le> i \<and> i < int (length data) then Some \<bar>data ! nat i\<bar> else None)"

definition above :: "real option \<Rightarrow> real \<Rightarrow> bool" where
  "above v t = (case v of None \<Rightarrow> False | Some x \<Rightarrow> x > t)"

definition atMost :: "real option \<Rightarrow> real \<Rightarrow> bool" where
  "atMost v t = (case v of None \<Rightarrow> False | Some x \<Rightarrow> x \<le> t)"

text \<open>The first loop: the largest amplitude at every 100th sample of the clip.\<close>

function maxScan :: "real list \<Rightarrow> int \<Rightarrow> int \<Rightarrow> real \<Rightarrow> real" where
  "maxScan data endSample i maxVal =
     (if i < endSample then
        maxScan data endSample (i + 100)
          (case sampleAbs data i of
             None \<Rightarrow> maxVal
           | Some v \<Rightarrow> if v > maxVal then v else maxVal)
      else maxVal)"
  by pat_completeness auto
termination
  by (relation "measure (\<lambda>(data, endSample, i, maxVal). nat (endSample - i))") auto

text \<open>The look-ahead \<open>for (let j = 1; j < limit && (i+j*100) < endSample; j++)\<close>: is
  there a sample above the threshold among the next ones?\<close>

function futureSpeech :: "real list \<Rightarrow> real \<Rightarrow> real \<Rightarrow> int \<Rightarrow> int \<Rightarrow> int \<Rightarrow> bool" where
  "futureSpeech data threshold limit endSample i j =
     (if real_of_int j < limit \<and> i + j * 100 < endSample then
        (if above (sampleAbs data (i + j * 100)) threshold then True
         else futureSpeech data threshold limit endSample i (j + 1))
      else False)"
  by pat_completeness auto
termination
  by (relation "measure (\<lambda>(data, threshold, limit, endSample, i, j).
        nat (endSample - (i + j * 100)))") auto

record Range =
  range_start :: int
  range_end :: int
  range_type :: segKind

text \<open>One turn of the main loop; the state is \<open>ranges\<close>, \<open>rangeStart\<close> and \<open>isSpeech\<close>.\<close>

definition rangeStep ::
  "real list \<Rightarrow> real \<Rightarrow> real \<Rightarrow> int \<Rightarrow> int \<Rightarrow> Range list \<times> int \<times> bool
     \<Rightarrow> Range list \<times> int \<times> bool" where
  "rangeStep data threshold limit endSample i st =
     (case st of (ranges, rangeStart, isSpeech) \<Rightarrow>
        let val = sampleAbs data i in
        if above val threshold \<and> \<not> isSpeech then
          (ranges @ [\<lparr>range_start = rangeStart, range_end = i, range_type = SilenceSeg\<rparr>],
           i, True)
        else if atMost val threshold \<and> isSpeech then
          (if \<not> futureSpeech data threshold limit endSample i 1 then
             (ranges @ [\<lparr>range_start = rangeStart, range_end = i, range_type = SpeechSeg\<rparr>],
              i, False)
           else st)
        else st)"

function scanRanges ::
  "real list \<Rightarrow> real \<Rightarrow> real \<Rightarrow> int \<Rightarrow> int \<Rightarrow> Range list \<times> int \<times> bool
     \<Rightarrow> Range list \<times> int \<times> bool" where
  "scanRanges data threshold limit endSample i st =
     (if i < endSample then
        scanRanges data threshold limit endSample (i + 100)
          (rangeStep data threshold limit endSample i st)
      else st)"
  by pat_completeness auto
termination
  by (relation "measure (\<lambda>(data, threshold, limit, endSample, i, st). nat (endSample - i))")
     auto

text \<open>The three loops are unfolded by hand, one turn at a time.\<close>

declare maxScan.simps [simp del] futureSpeech.simps [simp del] scanRanges.simps [simp del]

text \<open>\<open>Math.floor(clip.offset * buffer.sampleRate)\<close> and
  \<open>Math.floor((clip.offset + clip.duration) * buffer.sampleRate)\<close>.\<close>

definition startSampleOf :: "AudioBuffer \<Rightarrow> JClip \<Rightarrow> int" where
  "startSampleOf buffer clip = \<lfloor>double (offsetJ clip * sampleRate buffer)\<rfloor>"

definition endSampleOf :: "AudioBuffer \<Rightarrow> JClip \<Rightarrow> int" where
  "endSampleOf buffer clip =
     \<lfloor>double (double (offsetJ clip + durationJ clip) * sampleRate buffer)\<rfloor>"

text \<open>The threshold is 15 % of the peak and at least 0.01; silence shorter than 0.15 s
  does not end a speech range; a speech range is kept when it is longer than 0.15 s.\<close>

definition allRanges :: "AudioBuffer \<Rightarrow> real list \<Rightarrow> JClip \<Rightarrow> Range list" where
  "allRanges buffer data clip =
     (let startSample = startSampleOf buffer clip;
          endSample = endSampleOf buffer clip;
          maxVal = maxScan data endSample startSample 0;
          threshold = max (double 0.01) (double (maxVal * double 0.15));
          minSilenceDur = double 0.15
      in case scanRanges data threshold
                (double (double (minSilenceDur * sampleRate buffer) / 100))
                endSample startSample ([], startSample, False) of
           (ranges, rangeStart, isSpeech) \<Rightarrow>
             ranges @ [\<lparr>range_start = rangeStart, range_end = endSample,
                        range_type = (if isSpeech then SpeechSeg else SilenceSeg)\<rparr>])"

definition speechSegmentsOf :: "AudioBuffer \<Rightarrow> real list \<Rightarrow> JClip \<Rightarrow> Range list" where
  "speechSegmentsOf buffer data clip =
     filter (\<lambda>r. range_type r = SpeechSeg \<and>
                 double (real_of_int (range_end r - range_start r) / sampleRate buffer)
                   > double 0.15)
            (allRanges buffer data clip)"

subsection \<open>removeSilenceTool\<close>

datatype outcome3 = Returns3 Editor3 "Notice option" | Throws3 error Editor3

fun state_of3 :: "outcome3 \<Rightarrow> Editor3" where
  "state_of3 (Returns3 s notice) = s"
| "state_of3 (Throws3 e s) = s"

text \<open>
  The part of \<open>removeSilenceTool\<close> before \<open>saveState\<close>. A clip whose media is missing
  makes \<open>media.id\<close> throw; a failed \<open>fetch\<close> or \<open>decodeAudioData\<close> rejects; a buffer
  without channels makes \<open>getChannelData(0)\<close> throw. \<open>decoded\<close> is what \<open>fetch\<close> and
  \<open>decodeAudioData\<close> deliver when the cache has no buffer for the media.
\<close>

definition analyseTool ::
  "AudioBuffer option \<Rightarrow> Editor3 \<Rightarrow> outcome3 + JClip \<times> AudioBuffer \<times> Range list \<times> Editor3" where
  "analyseTool decoded s =
     (case selectedClipId3 s of
        None \<Rightarrow> Inl (Returns3 s (Some SelectAClip))
      | Some sel \<Rightarrow>
          if sel = [] then Inl (Returns3 s (Some SelectAClip))
          else
            (case findClip3 sel s of
               None \<Rightarrow> Inl (Returns3 s None)
             | Some clip \<Rightarrow>
                 (case find (\<lambda>m. media_id m = mediaIdJ clip) (media3 s) of
                    None \<Rightarrow> Inl (Throws3 TypeError s)
                  | Some mediaItem \<Rightarrow>
                      (case (case map_of (waveformCache s) (media_id mediaItem) of
                               Some cached \<Rightarrow> Some (cached, s)
                             | None \<Rightarrow>
                                 (case decoded of
                                    None \<Rightarrow> None
                                  | Some fresh \<Rightarrow>
                                      Some (fresh,
                                        s\<lparr>waveformCache :=
                                            (media_id mediaItem, fresh) # waveformCache s\<rparr>))) of
                         None \<Rightarrow> Inl (Throws3 DecodeError s)
                       | Some (buffer, s1) \<Rightarrow>
                           (case channelData buffer of
                              [] \<Rightarrow> Inl (Throws3 IndexSizeError s1)
                            | data # others \<Rightarrow>
                                let speechSegments = speechSegmentsOf buffer data clip in
                                if length speechSegments = 0
                                then Inl (Returns3 s1 (Some NoSpeechDetected))
                                else Inr (clip, buffer, speechSegments, s1))))))"

text \<open>\<open>findIndex\<close> and \<open>splice(idx, 1)\<close>: the first clip with the identifier is taken out.\<close>

fun removeFirstId :: "string \<Rightarrow> JClip list \<Rightarrow> JClip list" where
  "removeFirstId ident [] = []"
| "removeFirstId ident (c # cs) = (if idJ c = ident then cs else c # removeFirstId ident cs)"

text \<open>\<open>speechSegments.forEach\<close>; its state is \<open>insertTime\<close>. The identifier of the clip made
  \<open>k\<close>-th, \<open>'auto_' + Date.now() + Math.random()\<close>, is \<open>ids k\<close>.\<close>

fun autoClips :: "JClip \<Rightarrow> (nat \<Rightarrow> string) \<Rightarrow> real \<Rightarrow> Range list \<Rightarrow> real \<Rightarrow> nat \<Rightarrow> JClip list" where
  "autoClips clip ids rate [] insertTime k = []"
| "autoClips clip ids rate (seg # segs) insertTime k =
     (let segDuration = double (real_of_int (range_end seg - range_start seg) / rate);
          segOffset = double (real_of_int (range_start seg) / rate)
      in \<lparr>idJ = ids k, mediaIdJ = mediaIdJ clip, startTimeJ = insertTime,
           durationJ = segDuration, offsetJ = segOffset, typeJ = typeJ clip,
           mutedJ = mutedJ clip, isSilence = None\<rparr>
         # autoClips clip ids rate segs (double (insertTime + segDuration)) (Suc k))"

text \<open>New clips of a video clip go to the video track, all others to the first audio
  lane; \<open>state.tracks.audio[0].push\<close> throws when there is no lane.\<close>

definition removeSilenceTool ::
  "AudioBuffer option \<Rightarrow> (nat \<Rightarrow> string) \<Rightarrow> Editor3 \<Rightarrow> outcome3" where
  "removeSilenceTool decoded ids s =
     (case analyseTool decoded s of
        Inl out \<Rightarrow> out
      | Inr (clip, buffer, speechSegments, s1) \<Rightarrow>
          let s2 = saveState3 s1;
              s3 = s2\<lparr>video3 := filter (\<lambda>c. idJ c \<noteq> idJ clip) (video3 s2),
                      audio3 := map (removeFirstId (idJ clip)) (audio3 s2)\<rparr>;
              newClips = autoClips clip ids (sampleRate buffer) speechSegments
                           (startTimeJ clip) 0
          in if typeJ clip = Video then Returns3 (s3\<lparr>video3 := video3 s3 @ newClips\<rparr>) None
             else
               (case audio3 s3 of
                  [] \<Rightarrow> Throws3 TypeError s3
                | lane0 # rest \<Rightarrow>
                    Returns3 (s3\<lparr>audio3 := (lane0 @ newClips) # rest\<rparr>) None))"

subsection \<open>What the claims say of the new clips\<close>



text \<open>Sample ranges that lie between the positions \<open>a\<close> and \<open>b\<close>, in order and without
  overlap.\<close>

fun inOrder :: "int \<Rightarrow> Range list \<Rightarrow> int \<Rightarrow> bool" where
  "inOrder a [] b = (a \<le> b)"
| "inOrder a (r # rs) b =
     (a \<le> range_start r \<and> range_start r \<le> range_end r \<and> inOrder (range_end r) rs b)"



subsection \<open>A recording\<close>

text \<open>
  A recording of 4.25 s decoded at 8000 samples per second: 1600 samples of a loud tone,
  silence up to sample 32299, and the tone again for the last 1701 samples. In the
  second engine it is one selected video clip that starts at 2 s. \<open>firstWords\<close> and
  \<open>lastWords\<close> are the clips that \<open>removeSilenceTool\<close> puts in its place, the samples
  0 to 1600 and 32300 to 34000; \<open>lastWordsAgain\<close> is what the tool makes of \<open>lastWords\<close>,
  the samples 32299 to 34000.
\<close>

definition takeSamples :: "real list" where
  "takeSamples = replicate 1600 (1 / 2) @ replicate 30699 0 @ replicate 1701 (1 / 2)"

definition take :: AudioBuffer where
  "take = \<lparr>sampleRate = 8000, channelData = [takeSamples]\<rparr>"

text \<open>The threshold that the tool derives from the peak \<open>1/2\<close> of the recording.\<close>

definition takeThreshold :: real where
  "takeThreshold = max (double 0.01) (double (1 / 2 * double 0.15))"

definition takeMedia :: MediaItem where
  "takeMedia = \<lparr>media_id = ''m4'', media_url = Some ''blob:take'', media_type = Video,
     media_name = ''take.mp4'', media_duration = 17 / 4, videoWidth = Some 640,
     videoHeight = Some 360, recording = None\<rparr>"

definition takeClip :: JClip where
  "takeClip = \<lparr>idJ = ''clip_9'', mediaIdJ = ''m4'', startTimeJ = 2,
     durationJ = 17 / 4, offsetJ = 0, typeJ = Video, mutedJ = False, isSilence = None\<rparr>"

definition take_selected :: Editor3 where
  "take_selected = editor3Initial\<lparr>media3 := [takeMedia], video3 := [takeClip],
     selectedClipId3 := Some ''clip_9''\<rparr>"

definition firstWords :: JClip where
  "firstWords = \<lparr>idJ = ''auto_1800.25'', mediaIdJ = ''m4'', startTimeJ = 2,
     durationJ = double (1600 / 8000), offsetJ = 0, typeJ = Video, mutedJ = False,
     isSilence = None\<rparr>"

definition lastWords :: JClip where
  "lastWords = \<lparr>idJ = ''auto_1800.75'', mediaIdJ = ''m4'',
     startTimeJ = double (2 + double (1600 / 8000)),
     durationJ = double (1700 / 8000), offsetJ = double (32300 / 8000), typeJ = Video,
     mutedJ = False, isSilence = None\<rparr>"


text \<open>The identifiers drawn in the first and in the second call, \<open>'auto_'\<close> followed by
  the time stamp and the random number.\<close>

fun firstIds :: "nat \<Rightarrow> string" where
  "firstIds 0 = ''auto_1800.25''"
| "firstIds (Suc k) = ''auto_1800.75''"






section \<open>Sample data\<close>

text \<open>A ten-second video and a four-second recording, used to run the definitions.\<close>

definition film :: MediaItem where
  "film = \<lparr>media_id = ''m1'', media_url = Some ''blob:film'', media_type = Video,
     media_name = ''film.mp4'', media_duration = 10, videoWidth = Some 1280,
     videoHeight = Some 720, recording = None\<rparr>"

definition song :: MediaItem where
  "song = \<lparr>media_id = ''m2'', media_url = Some ''blob:song'', media_type = Audio,
     media_name = ''song.m4a'', media_duration = 4, videoWidth = Some 0,
     videoHeight = Some 0, recording = None\<rparr>"

text \<open>A state whose history is full, with one entry to redo.\<close>

definition full_history :: StateService where
  "full_history = initial\<lparr>historyStack := replicate 50 (stringify (initial\<lparr>zoom := 1\<rparr>)),
     redoStack := [stringify (initial\<lparr>zoom := 2\<rparr>)]\<rparr>"

text \<open>The timeline after the recording has been dropped at time 0.\<close>

definition one_song :: StateService where
  "one_song = state_of (addClipToTimeline song 0 1 ''a'' initial)"

text \<open>The film dropped at time 0 and selected, with the playhead at 6 s, at 20 s, and
  with an identifier selected that no clip has.\<close>

definition film_at :: "real \<Rightarrow> StateService" where
  "film_at t = run [AddClipToTimeline film 0 7 ''ab'',
                    SetSelectedClipId (Some (newClipId 7 ''ab'')), SetPlaybackTime t]"

text \<open>The recording dropped at time 0 and undone: an empty timeline with one entry to redo.\<close>

definition undone_song :: StateService where
  "undone_song = undo one_song"

text \<open>The invariant of the two stacks: together they never hold more than 50 snapshots.\<close>

definition bounded :: "StateService \<Rightarrow> bool" where
  "bounded s = (length (historyStack s) + length (redoStack s) \<le> 50)"

section \<open>Properties of the history engine\<close>

lemma saveState_fields [simp]:
  "videoTrack (saveState s) = videoTrack s"
  "audioTracks (saveState s) = audioTracks s"
  "playbackTime (saveState s) = playbackTime s"
  "zoom (saveState s) = zoom s"
  "selectedClipId (saveState s) = selectedClipId s"
  "isPlaying (saveState s) = isPlaying s"
  "media (saveState s) = media s"
  by (simp_all add: saveState_def Let_def)

lemma stringify_restoreState: "stringify (restoreState snap s) = snap"
  by (cases snap) (simp add: stringify_def restoreState_def)

lemma stringify_stacks:
  "stringify (s\<lparr>historyStack := h\<rparr>) = stringify s"
  "stringify (s\<lparr>redoStack := r\<rparr>) = stringify s"
  by (simp_all add: stringify_def)

lemma last_capped:
  "last (if length (h @ [x]) > 50 then tl (h @ [x]) else h @ [x]) = x"
  by (cases h) (simp_all add: last_tl)

lemma capped_nonempty:
  "(if length (h @ [x]) > 50 then tl (h @ [x]) else h @ [x]) \<noteq> []"
  by (cases h) auto

lemma saveState_duplicate:
  "historyStack s \<noteq> [] \<Longrightarrow> last (historyStack s) = stringify s \<Longrightarrow> saveState s = s"
  by (simp add: saveState_def)

lemma saveState_push:
  assumes "historyStack s = [] \<or> last (historyStack s) \<noteq> stringify s"
  shows "saveState s =
     s\<lparr>historyStack := (if length (historyStack s) < 50
                           then historyStack s @ [stringify s]
                           else tl (historyStack s) @ [stringify s]),
       redoStack := []\<rparr>"
proof (cases "historyStack s")
  case Nil
  then show ?thesis by (simp add: saveState_def Let_def)
next
  case (Cons a h)
  with assms have "last (historyStack s) \<noteq> stringify s" by simp
  with Cons show ?thesis by (auto simp add: saveState_def Let_def)
qed

lemma saveState_idem: "saveState (saveState s) = saveState s"
proof (cases "historyStack s \<noteq> [] \<and> last (historyStack s) = stringify s")
  case True
  then show ?thesis by (simp add: saveState_duplicate)
next
  case False
  define h' where "h' = (if length (historyStack s @ [stringify s]) > 50
     then tl (historyStack s @ [stringify s]) else historyStack s @ [stringify s])"
  have s1: "saveState s = s\<lparr>historyStack := h', redoStack := []\<rparr>"
    using False by (auto simp add: saveState_def Let_def h'_def)
  have l: "last h' = stringify s" unfolding h'_def by (rule last_capped)
  have n: "h' \<noteq> []" unfolding h'_def by (rule capped_nonempty)
  have "saveState (s\<lparr>historyStack := h', redoStack := []\<rparr>) =
        s\<lparr>historyStack := h', redoStack := []\<rparr>"
    using l n by (simp add: saveState_def Let_def stringify_stacks)
  then show ?thesis by (simp add: s1)
qed

text \<open>
  C2. With a non-empty history, \<open>undo\<close> followed by \<open>redo\<close> gives back the state it
  started from: the tracks, the selection, the playhead and the zoom, and the two stacks
  as well.
\<close>

theorem undo_then_redo_restores:
  assumes "historyStack s \<noteq> []"
  shows "redo (undo s) = s"
proof -
  let ?top = "last (historyStack s)"
  have u: "undo s = restoreState ?top
             (s\<lparr>redoStack := redoStack s @ [stringify s],
                historyStack := butlast (historyStack s)\<rparr>)"
    using assms by (simp add: undo_def Let_def)
  have str: "stringify (undo s) = ?top" by (simp add: u stringify_restoreState)
  have r: "redoStack (undo s) = redoStack s @ [stringify s]" by (simp add: u restoreState_def)
  have hs: "historyStack (undo s) = butlast (historyStack s)" by (simp add: u restoreState_def)
  have "redo (undo s) = restoreState (stringify s)
          ((undo s)\<lparr>historyStack := butlast (historyStack s) @ [?top],
                     redoStack := redoStack s\<rparr>)"
    by (simp add: redo_def[of "undo s"] Let_def r hs str)
  also have "\<dots> = s" using assms
    by (simp add: u restoreState_def stringify_def)
  finally show ?thesis .
qed

subsection \<open>The bound of the history\<close>

lemma bounded_saveState: "bounded s \<Longrightarrow> bounded (saveState s)"
  by (auto simp: bounded_def saveState_def Let_def)

lemma bounded_undo: "bounded s \<Longrightarrow> bounded (undo s)"
  by (cases "historyStack s") (auto simp: bounded_def undo_def Let_def restoreState_def)

lemma bounded_redo: "bounded s \<Longrightarrow> bounded (redo s)"
  by (cases "redoStack s") (auto simp: bounded_def redo_def Let_def restoreState_def)

lemma updateClip_stacks:
  "historyStack (updateClip c u s) = historyStack s"
  "redoStack (updateClip c u s) = redoStack s"
  by (simp_all add: updateClip_def Let_def split: option.splits)

lemma deleteClip_stacks:
  "historyStack (deleteClip c s) = historyStack (saveState s)"
  "redoStack (deleteClip c s) = redoStack (saveState s)"
  by (simp_all add: deleteClip_def Let_def)

lemma addClipToTimeline_stacks:
  "historyStack (state_of (addClipToTimeline m st now rnd s)) = historyStack (saveState s)"
  "redoStack (state_of (addClipToTimeline m st now rnd s)) = redoStack (saveState s)"
  by (simp_all add: addClipToTimeline_def Let_def split: list.splits)

lemma addToTimelineSmart_stacks:
  "historyStack (state_of (addToTimelineSmart m now rnd s)) = historyStack (saveState s)"
  "redoStack (state_of (addToTimelineSmart m now rnd s)) = redoStack (saveState s)"
  by (simp_all add: addToTimelineSmart_def Let_def split: list.splits)

lemma splitClip_stacks:
  "(historyStack (splitClip now s) = historyStack (saveState s) \<and>
    redoStack (splitClip now s) = redoStack (saveState s)) \<or>
   (historyStack (splitClip now s) = historyStack s \<and>
    redoStack (splitClip now s) = redoStack s)"
  by (simp add: splitClip_def Let_def updateClip_stacks split: option.splits)

lemma bounded_exec: "bounded s \<Longrightarrow> bounded (exec s c)"
proof (cases c)
  case (SplitClip now)
  assume b: "bounded s"
  from splitClip_stacks[of now s] show ?thesis
    using b bounded_saveState[OF b] SplitClip by (auto simp: bounded_def)
qed (insert bounded_saveState[of s] bounded_undo[of s] bounded_redo[of s],
     auto simp: bounded_def addMedia_def updateClip_stacks deleteClip_stacks
       addClipToTimeline_stacks addToTimelineSmart_stacks)

lemma bounded_foldl: "bounded s \<Longrightarrow> bounded (foldl exec s cmds)"
  by (induction cmds arbitrary: s) (simp_all add: bounded_exec)

lemma bounded_run: "bounded (run cmds)"
  unfolding run_def by (rule bounded_foldl) (simp add: bounded_def initial_def)

text \<open>
  C4. Whatever commands have run since the editor started, the history holds at most 50
  snapshots. A call of \<open>saveState\<close> that is not a duplicate empties the redo stack and
  appends its snapshot, dropping the oldest entry when the history is full.
\<close>

theorem history_at_most_50:
  "length (historyStack (run cmds)) \<le> 50 \<and>
   (historyStack s = [] \<or> last (historyStack s) \<noteq> stringify s \<longrightarrow>
      redoStack (saveState s) = [] \<and>
      historyStack (saveState s) =
        (if length (historyStack s) < 50 then historyStack s @ [stringify s]
         else tl (historyStack s) @ [stringify s]))"
proof -
  have "length (historyStack (run cmds)) \<le> 50"
    using bounded_run[of cmds] by (simp add: bounded_def)
  moreover have "historyStack s = [] \<or> last (historyStack s) \<noteq> stringify s \<longrightarrow>
      redoStack (saveState s) = [] \<and>
      historyStack (saveState s) =
        (if length (historyStack s) < 50 then historyStack s @ [stringify s]
         else tl (historyStack s) @ [stringify s])"
  proof
    assume "historyStack s = [] \<or> last (historyStack s) \<noteq> stringify s"
    from saveState_push[OF this] show "redoStack (saveState s) = [] \<and>
      historyStack (saveState s) =
        (if length (historyStack s) < 50 then historyStack s @ [stringify s]
         else tl (historyStack s) @ [stringify s])" by simp
  qed
  ultimately show ?thesis by blast
qed

lemmas run_simps = run_def initial_def addClipToTimeline_def makeClip_def saveState_def stringify_def
  newClipId_def film_def song_def Let_def checkCollision_def undo_def redo_def restoreState_def

theorem undo_then_redo_restores_witness:
  "historyStack (run [AddClipToTimeline film 0 7 ''ab'', SetZoom 30, SaveState]) \<noteq> [] \<and>
   undo (run [AddClipToTimeline film 0 7 ''ab'', SetZoom 30, SaveState])
     \<noteq> run [AddClipToTimeline film 0 7 ''ab'', SetZoom 30, SaveState] \<and>
   redo (undo (run [AddClipToTimeline film 0 7 ''ab'', SetZoom 30, SaveState]))
     = run [AddClipToTimeline film 0 7 ''ab'', SetZoom 30, SaveState]"
proof -
  have h: "historyStack (run [AddClipToTimeline film 0 7 ''ab'', SetZoom 30, SaveState]) \<noteq> []"
    by (simp add: run_simps)
  have d: "undo (run [AddClipToTimeline film 0 7 ''ab'', SetZoom 30, SaveState])
     \<noteq> run [AddClipToTimeline film 0 7 ''ab'', SetZoom 30, SaveState]"
    by (simp add: run_simps)
  from h d undo_then_redo_restores[OF h] show ?thesis by simp
qed

theorem history_at_most_50_witness:
  "length (historyStack (run [SaveState, SetZoom 30, SaveState, Undo])) \<le> 50 \<and>
   (historyStack initial = [] \<or> last (historyStack initial) \<noteq> stringify initial) \<and>
   redoStack (saveState initial) = [] \<and>
   historyStack (saveState initial) = [stringify initial] \<and>
   (historyStack full_history = [] \<or> last (historyStack full_history) \<noteq> stringify full_history) \<and>
   redoStack (saveState full_history) = [] \<and>
   historyStack (saveState full_history) =
     replicate 49 (stringify (initial\<lparr>zoom := 1\<rparr>)) @ [stringify initial]"
proof -
  have a: "historyStack initial = [] \<or> last (historyStack initial) \<noteq> stringify initial"
    by (simp add: initial_def)
  have b: "historyStack full_history = [] \<or>
           last (historyStack full_history) \<noteq> stringify full_history"
    by (simp add: full_history_def initial_def stringify_def)
  have c: "stringify full_history = stringify initial"
    by (simp add: full_history_def stringify_def)
  have d: "historyStack full_history = replicate 50 (stringify (initial\<lparr>zoom := 1\<rparr>))"
    by (simp add: full_history_def)
  from history_at_most_50[of "[SaveState, SetZoom 30, SaveState, Undo]" initial] a
  have 1: "length (historyStack (run [SaveState, SetZoom 30, SaveState, Undo])) \<le> 50 \<and>
     redoStack (saveState initial) = [] \<and>
     historyStack (saveState initial) = [stringify initial]"
    by (simp add: initial_def)
  from history_at_most_50[of "[]" full_history] b
  have 2: "redoStack (saveState full_history) = [] \<and>
     historyStack (saveState full_history) =
       replicate 49 (stringify (initial\<lparr>zoom := 1\<rparr>)) @ [stringify initial]"
    by (simp add: c d)
  from a b 1 2 show ?thesis by blast
qed

section \<open>Placing audio clips\<close>


lemma intervals_meet:
  fixes a b c d :: real
  assumes "a < b" "c < d"
  shows "({a..<b} \<inter> {c..<d} \<noteq> {}) = (a < d \<and> c < b)"
proof
  assume "{a..<b} \<inter> {c..<d} \<noteq> {}"
  then have "\<exists>x. x \<in> {a..<b} \<inter> {c..<d}" by blast
  then obtain x where "x \<in> {a..<b}" "x \<in> {c..<d}" by blast
  then have "a \<le> x \<and> x < b \<and> c \<le> x \<and> x < d" by simp
  then show "a < d \<and> c < b" by linarith
next
  assume h: "a < d \<and> c < b"
  have "max a c \<in> {a..<b} \<inter> {c..<d}" using assms h by auto
  then show "{a..<b} \<inter> {c..<d} \<noteq> {}" by blast
qed

lemma checkCollision_iff:
  "checkCollision trackClips n =
     (\<exists>c\<in>set trackClips. clip_id c \<noteq> clip_id n \<and>
        startTime n < startTime c + duration c \<and> startTime c < startTime n + duration n)"
  by (auto simp: checkCollision_def list_ex_iff)

lemma checkCollision_intervals:
  assumes "duration n > 0" "\<forall>c\<in>set trackClips. duration c > 0"
  shows "checkCollision trackClips n =
     (\<exists>c\<in>set trackClips. clip_id c \<noteq> clip_id n \<and>
        {startTime n ..< startTime n + duration n} \<inter>
        {startTime c ..< startTime c + duration c} \<noteq> {})"
proof -
  have "\<And>c. c \<in> set trackClips \<Longrightarrow>
     ({startTime n ..< startTime n + duration n} \<inter> {startTime c ..< startTime c + duration c} \<noteq> {})
      = (startTime n < startTime c + duration c \<and> startTime c < startTime n + duration n)"
    using assms by (intro intervals_meet) auto
  then show ?thesis unfolding checkCollision_iff by blast
qed

text \<open>
  C5. \<open>addClipToTimeline\<close> starts the new clip at \<open>max 0 start\<close>. An audio clip goes
  to lane 0 unless its interval \<open>[startTime, startTime + duration)\<close> meets the interval
  of a clip of lane 0 (one with another identifier); then it goes to lane 1, whatever
  lane 1 holds. The call always returns. Durations are positive, so that the intervals
  are not empty.
\<close>

theorem addClipToTimeline_lane_choice:
  assumes "media_type item = Audio"
      and "audioTracks s = lane0 # lane1 # rest"
      and "media_duration item > 0"
      and "\<forall>c\<in>set lane0. duration c > 0"
  shows "startTime (makeClip item start now rnd) = max 0 start \<and>
         addClipToTimeline item start now rnd s =
           Returns ((saveState s)\<lparr>audioTracks :=
             (if (\<exists>c\<in>set lane0. clip_id c \<noteq> clip_id (makeClip item start now rnd) \<and>
                    {startTime (makeClip item start now rnd) ..<
                       startTime (makeClip item start now rnd) + duration (makeClip item start now rnd)} \<inter>
                    {startTime c ..< startTime c + duration c} \<noteq> {})
              then lane0 # (lane1 @ [makeClip item start now rnd]) # rest
              else (lane0 @ [makeClip item start now rnd]) # lane1 # rest)\<rparr>)"
proof -
  let ?clip = "makeClip item start now rnd"
  have d: "duration ?clip > 0" using assms(3) by (simp add: makeClip_def)
  note cc = checkCollision_intervals[OF d assms(4)]
  have st: "startTime ?clip = max 0 start" by (simp add: makeClip_def)
  have "addClipToTimeline item start now rnd s =
      Returns ((saveState s)\<lparr>audioTracks :=
         (if checkCollision lane0 ?clip then lane0 # (lane1 @ [?clip]) # rest
          else (lane0 @ [?clip]) # lane1 # rest)\<rparr>)"
    using assms(1,2) by (simp add: addClipToTimeline_def Let_def)
  then show ?thesis unfolding cc using st by simp
qed

text \<open>
  C10. \<open>checkCollision\<close> reports a collision exactly when a clip of the lane with another
  identifier starts before the new clip ends and ends after the new clip starts; for
  clips of positive duration, exactly when the half-open intervals
  \<open>[startTime, startTime + duration)\<close> of the two clips have a point in common. Clips that
  only touch do not collide: when every clip of lane 0 ends at or before the start of the
  new audio clip, or starts at or after its end, the new clip is placed on lane 0. A clip
  of lane 0 that overlaps the new clip is a collision, and the new clip goes to lane 1.
\<close>

theorem touching_clips_share_lane0:
  assumes "media_type item = Audio"
  shows "let n = makeClip item start now rnd in
         (checkCollision lane0 n =
            (\<exists>c\<in>set lane0. clip_id c \<noteq> clip_id n \<and>
               startTime n < startTime c + duration c \<and>
               startTime c < startTime n + duration n)) \<and>
         (0 < duration n \<and> (\<forall>c\<in>set lane0. 0 < duration c) \<longrightarrow>
            checkCollision lane0 n =
              (\<exists>c\<in>set lane0. clip_id c \<noteq> clip_id n \<and>
                 {startTime n ..< startTime n + duration n} \<inter>
                 {startTime c ..< startTime c + duration c} \<noteq> {})) \<and>
         (audioTracks s = lane0 # rest \<and>
          (\<forall>c\<in>set lane0. startTime c + duration c \<le> startTime n \<or>
                          startTime n + duration n \<le> startTime c) \<longrightarrow>
            \<not> checkCollision lane0 n \<and>
            addClipToTimeline item start now rnd s =
              Returns ((saveState s)\<lparr>audioTracks := (lane0 @ [n]) # rest\<rparr>)) \<and>
         (audioTracks s = lane0 # lane1 # others \<and>
          (\<exists>c\<in>set lane0. clip_id c \<noteq> clip_id n \<and>
             startTime n < startTime c + duration c \<and>
             startTime c < startTime n + duration n) \<longrightarrow>
            checkCollision lane0 n \<and>
            addClipToTimeline item start now rnd s =
              Returns ((saveState s)\<lparr>audioTracks := lane0 # (lane1 @ [n]) # others\<rparr>))"
proof -
  let ?n = "makeClip item start now rnd"
  have a: "checkCollision lane0 ?n =
      (\<exists>c\<in>set lane0. clip_id c \<noteq> clip_id ?n \<and>
         startTime ?n < startTime c + duration c \<and>
         startTime c < startTime ?n + duration ?n)"
    by (rule checkCollision_iff)
  have b: "0 < duration ?n \<and> (\<forall>c\<in>set lane0. 0 < duration c) \<longrightarrow>
      checkCollision lane0 ?n =
        (\<exists>c\<in>set lane0. clip_id c \<noteq> clip_id ?n \<and>
           {startTime ?n ..< startTime ?n + duration ?n} \<inter>
           {startTime c ..< startTime c + duration c} \<noteq> {})"
    using checkCollision_intervals[of ?n lane0] by blast
  have c: "audioTracks s = lane0 # rest \<and>
      (\<forall>c\<in>set lane0. startTime c + duration c \<le> startTime ?n \<or>
                      startTime ?n + duration ?n \<le> startTime c) \<longrightarrow>
      \<not> checkCollision lane0 ?n \<and>
      addClipToTimeline item start now rnd s =
        Returns ((saveState s)\<lparr>audioTracks := (lane0 @ [?n]) # rest\<rparr>)"
  proof
    assume h: "audioTracks s = lane0 # rest \<and>
      (\<forall>c\<in>set lane0. startTime c + duration c \<le> startTime ?n \<or>
                      startTime ?n + duration ?n \<le> startTime c)"
    have nc: "\<not> checkCollision lane0 ?n"
      unfolding a using h by fastforce
    have "addClipToTimeline item start now rnd s =
        Returns ((saveState s)\<lparr>audioTracks := (lane0 @ [?n]) # rest\<rparr>)"
      using nc h assms by (simp add: addClipToTimeline_def Let_def)
    with nc show "\<not> checkCollision lane0 ?n \<and>
      addClipToTimeline item start now rnd s =
        Returns ((saveState s)\<lparr>audioTracks := (lane0 @ [?n]) # rest\<rparr>)" by blast
  qed
  have d: "audioTracks s = lane0 # lane1 # others \<and>
      (\<exists>c\<in>set lane0. clip_id c \<noteq> clip_id ?n \<and>
         startTime ?n < startTime c + duration c \<and>
         startTime c < startTime ?n + duration ?n) \<longrightarrow>
      checkCollision lane0 ?n \<and>
      addClipToTimeline item start now rnd s =
        Returns ((saveState s)\<lparr>audioTracks := lane0 # (lane1 @ [?n]) # others\<rparr>)"
  proof
    assume h: "audioTracks s = lane0 # lane1 # others \<and>
      (\<exists>c\<in>set lane0. clip_id c \<noteq> clip_id ?n \<and>
         startTime ?n < startTime c + duration c \<and>
         startTime c < startTime ?n + duration ?n)"
    have col: "checkCollision lane0 ?n"
      unfolding a using h by blast
    have "addClipToTimeline item start now rnd s =
        Returns ((saveState s)\<lparr>audioTracks := lane0 # (lane1 @ [?n]) # others\<rparr>)"
      using col h assms by (simp add: addClipToTimeline_def Let_def)
    with col show "checkCollision lane0 ?n \<and>
      addClipToTimeline item start now rnd s =
        Returns ((saveState s)\<lparr>audioTracks := lane0 # (lane1 @ [?n]) # others\<rparr>)" by blast
  qed
  show ?thesis unfolding Let_def using a b c d by blast
qed


lemma one_song_tracks:
  "audioTracks one_song = [[makeClip song 0 1 ''a''], []]"
  by (simp add: one_song_def addClipToTimeline_def Let_def initial_def song_def checkCollision_def)

theorem addClipToTimeline_lane_choice_witness:
  "media_type song = Audio \<and>
   audioTracks one_song = [makeClip song 0 1 ''a''] # [] # [] \<and>
   media_duration song > 0 \<and>
   duration (makeClip song 0 1 ''a'') > 0 \<and>
   startTime (makeClip song (-3) 2 ''b'') = 0 \<and>
   addClipToTimeline song (-3) 2 ''b'' one_song =
     Returns ((saveState one_song)\<lparr>audioTracks :=
        [[makeClip song 0 1 ''a''], [makeClip song (-3) 2 ''b'']]\<rparr>)"
proof -
  have a: "media_type song = Audio" by (simp add: song_def)
  have b: "audioTracks one_song = [makeClip song 0 1 ''a''] # [] # []"
    by (simp add: one_song_tracks)
  have c: "media_duration song > 0" by (simp add: song_def)
  have d: "\<forall>c\<in>set [makeClip song 0 1 ''a'']. duration c > 0"
    by (simp add: makeClip_def song_def)
  from addClipToTimeline_lane_choice[OF a b c d, of "-3" 2 "''b''"] a b c d
  show ?thesis by (simp add: makeClip_def song_def newClipId_def)
qed

theorem touching_clips_share_lane0_witness:
  "media_type song = Audio \<and>
   audioTracks one_song = [[makeClip song 0 1 ''a''], []] \<and>
   startTime (makeClip song 0 1 ''a'') + duration (makeClip song 0 1 ''a'') =
     startTime (makeClip song 4 2 ''b'') \<and>
   \<not> checkCollision [makeClip song 0 1 ''a''] (makeClip song 4 2 ''b'') \<and>
   addClipToTimeline song 4 2 ''b'' one_song =
     Returns ((saveState one_song)\<lparr>audioTracks :=
        [[makeClip song 0 1 ''a'', makeClip song 4 2 ''b''], []]\<rparr>) \<and>
   startTime (makeClip song 3 2 ''b'') <
     startTime (makeClip song 0 1 ''a'') + duration (makeClip song 0 1 ''a'') \<and>
   checkCollision [makeClip song 0 1 ''a''] (makeClip song 3 2 ''b'') \<and>
   addClipToTimeline song 3 2 ''b'' one_song =
     Returns ((saveState one_song)\<lparr>audioTracks :=
        [[makeClip song 0 1 ''a''], [makeClip song 3 2 ''b'']]\<rparr>) \<and>
   {startTime (makeClip song 3 2 ''b'') ..<
      startTime (makeClip song 3 2 ''b'') + duration (makeClip song 3 2 ''b'')} \<inter>
   {startTime (makeClip song 0 1 ''a'') ..<
      startTime (makeClip song 0 1 ''a'') + duration (makeClip song 0 1 ''a'')} \<noteq> {}"
proof -
  let ?a = "makeClip song 0 1 ''a''"
  have a: "media_type song = Audio" by (simp add: song_def)
  have b: "audioTracks one_song = [?a] # [[]]"
    by (simp add: one_song_tracks)
  have b2: "audioTracks one_song = [?a] # [] # []"
    by (simp add: one_song_tracks)
  have ids: "newClipId 1 ''a'' \<noteq> newClipId 2 ''b''" by code_simp
  have touch: "\<forall>c\<in>set [?a]. startTime c + duration c \<le> startTime (makeClip song 4 2 ''b'') \<or>
      startTime (makeClip song 4 2 ''b'') + duration (makeClip song 4 2 ''b'') \<le> startTime c"
    by (simp add: makeClip_def song_def)
  have over: "\<exists>c\<in>set [?a]. clip_id c \<noteq> clip_id (makeClip song 3 2 ''b'') \<and>
      startTime (makeClip song 3 2 ''b'') < startTime c + duration c \<and>
      startTime c < startTime (makeClip song 3 2 ''b'') + duration (makeClip song 3 2 ''b'')"
    using ids by (simp add: makeClip_def song_def)
  have pos: "0 < duration (makeClip song 3 2 ''b'') \<and> (\<forall>c\<in>set [?a]. 0 < duration c)"
    by (simp add: makeClip_def song_def)
  note t4 = touching_clips_share_lane0[OF a, of 4 2 "''b''" "[?a]" one_song "[[]]" "[]" "[]",
      unfolded Let_def]
  note t3 = touching_clips_share_lane0[OF a, of 3 2 "''b''" "[?a]" one_song "[[]]" "[]" "[]",
      unfolded Let_def]
  have r4: "\<not> checkCollision [?a] (makeClip song 4 2 ''b'') \<and>
      addClipToTimeline song 4 2 ''b'' one_song =
        Returns ((saveState one_song)\<lparr>audioTracks :=
          ([?a] @ [makeClip song 4 2 ''b'']) # [[]]\<rparr>)"
    using t4 b touch by blast
  have r3: "checkCollision [?a] (makeClip song 3 2 ''b'') \<and>
      addClipToTimeline song 3 2 ''b'' one_song =
        Returns ((saveState one_song)\<lparr>audioTracks :=
          [?a] # ([] @ [makeClip song 3 2 ''b'']) # []\<rparr>)"
    using t3 b2 over by blast
  have i3: "checkCollision [?a] (makeClip song 3 2 ''b'') =
      (\<exists>c\<in>set [?a]. clip_id c \<noteq> clip_id (makeClip song 3 2 ''b'') \<and>
         {startTime (makeClip song 3 2 ''b'') ..<
            startTime (makeClip song 3 2 ''b'') + duration (makeClip song 3 2 ''b'')} \<inter>
         {startTime c ..< startTime c + duration c} \<noteq> {})"
    using t3 pos by blast
  have meet: "{startTime (makeClip song 3 2 ''b'') ..<
      startTime (makeClip song 3 2 ''b'') + duration (makeClip song 3 2 ''b'')} \<inter>
      {startTime ?a ..< startTime ?a + duration ?a} \<noteq> {}"
    using i3 r3 by simp
  have eq: "startTime ?a + duration ?a = startTime (makeClip song 4 2 ''b'')"
    "startTime (makeClip song 3 2 ''b'') < startTime ?a + duration ?a"
    by (simp_all add: makeClip_def song_def)
  show ?thesis
    using a b2 eq r4 r3 meet by simp
qed
section \<open>Splitting, updating and deleting clips\<close>




lemma findIndexFrom_None: "(\<forall>c\<in>set xs. \<not> p c) \<Longrightarrow> findIndexFrom p xs k = None"
  by (induction xs arbitrary: k) simp_all

lemma findIndex_None: "(\<forall>c\<in>set xs. \<not> p c) \<Longrightarrow> findIndex p xs = None"
  by (simp add: findIndex_def findIndexFrom_None)

lemma find_None: "(\<forall>c\<in>set xs. \<not> p c) \<Longrightarrow> find p xs = None"
  by (simp add: find_None_iff)



lemma findInTracks_absent:
  "(\<forall>t\<in>set ts. \<forall>c\<in>set t. clip_id c \<noteq> cid) \<Longrightarrow> findInTracks cid ts = None"
  by (induction ts) (simp_all add: find_None hasId_def)





lemma found_absent:
  "(\<forall>t\<in>set ts. \<forall>c\<in>set t. clip_id c \<noteq> cid) \<Longrightarrow>
     \<not> list_ex (\<lambda>track. findIndex (hasId cid) track \<noteq> None) ts"
  by (simp add: list_ex_iff findIndex_None hasId_def)

















lemma film_at_fields:
  "videoTrack (film_at t) = [makeClip film 0 7 ''ab'']"
  "audioTracks (film_at t) = [[], []]"
  "selectedClipId (film_at t) = Some (newClipId 7 ''ab'')"
  "playbackTime (film_at t) = t"
  by (simp_all add: film_at_def run_def initial_def addClipToTimeline_def Let_def film_def)





lemma updateClip_unknown:
  assumes "\<forall>t\<in>set (lanes s). \<forall>c\<in>set t. clip_id c \<noteq> cid"
  shows "updateClip cid u s = s"
proof -
  have v: "findIndex (hasId cid) (videoTrack s) = None"
    using assms by (simp add: lanes_def findIndex_None hasId_def)
  have a: "\<forall>t\<in>set (audioTracks s). \<forall>c\<in>set t. clip_id c \<noteq> cid"
    using assms by (simp add: lanes_def)
  show ?thesis using v found_absent[OF a] by (simp add: updateClip_def Let_def)
qed

lemma findClip_unknown:
  assumes "\<forall>t\<in>set (lanes s). \<forall>c\<in>set t. clip_id c \<noteq> cid"
  shows "findClip cid s = None"
proof -
  have v: "find (hasId cid) (videoTrack s) = None"
    using assms by (simp add: lanes_def find_None hasId_def)
  have a: "\<forall>t\<in>set (audioTracks s). \<forall>c\<in>set t. clip_id c \<noteq> cid"
    using assms by (simp add: lanes_def)
  show ?thesis using v findInTracks_absent[OF a] by (simp add: findClip_def)
qed

lemma filter_unknown:
  "(\<forall>c\<in>set t. clip_id c \<noteq> cid) \<Longrightarrow> filter (\<lambda>c. clip_id c \<noteq> cid) t = t"
  by (induction t) simp_all

lemma map_filter_unknown:
  "(\<forall>t\<in>set ts. \<forall>c\<in>set t. clip_id c \<noteq> cid) \<Longrightarrow>
     map (filter (\<lambda>c. clip_id c \<noteq> cid)) ts = ts"
  by (induction ts) (simp_all add: filter_unknown)

lemma deleteClip_unknown:
  assumes "\<forall>t\<in>set (lanes s). \<forall>c\<in>set t. clip_id c \<noteq> cid"
  shows "deleteClip cid s =
     (saveState s)\<lparr>selectedClipId :=
        (if selectedClipId s = Some cid then None else selectedClipId s)\<rparr>"
proof -
  have v: "filter (\<lambda>c. clip_id c \<noteq> cid) (videoTrack s) = videoTrack s"
    using assms by (simp add: lanes_def filter_unknown)
  have a: "map (filter (\<lambda>c. clip_id c \<noteq> cid)) (audioTracks s) = audioTracks s"
    using assms by (simp add: lanes_def map_filter_unknown)
  show ?thesis by (simp add: deleteClip_def Let_def v a)
qed

text \<open>
  C8, as the code has it. When no clip carries the identifier, \<open>updateClip\<close> and
  \<open>splitClip\<close> return the state they were given, and \<open>deleteClip\<close> leaves every lane,
  the playhead and the zoom as they were; but \<open>deleteClip\<close> has run \<open>saveState\<close> first and
  drops a selection of that identifier. \<open>splitClip\<close> returns the state it was given when
  nothing is selected and when the playhead is not more than 0.05 s inside the selected
  clip. \<open>addClipToTimeline\<close> starts its clip at \<open>max 0 start\<close>. None of these
  operations throws.
\<close>

theorem unknown_id_and_range:
  "((\<forall>t\<in>set (lanes s). \<forall>c\<in>set t. clip_id c \<noteq> cid) \<longrightarrow>
      updateClip cid u s = s \<and>
      (selectedClipId s = Some cid \<longrightarrow> splitClip now s = s) \<and>
      deleteClip cid s =
        (saveState s)\<lparr>selectedClipId :=
           (if selectedClipId s = Some cid then None else selectedClipId s)\<rparr> \<and>
      lanes (deleteClip cid s) = lanes s \<and>
      playbackTime (deleteClip cid s) = playbackTime s \<and>
      zoom (deleteClip cid s) = zoom s) \<and>
   (selectedClipId s = None \<longrightarrow> splitClip now s = s) \<and>
   (selectedClipId s = Some cid \<and> findClip cid s = Some C \<and>
      \<not> (0.05 < playbackTime s - startTime C \<and>
         playbackTime s - startTime C < duration C - 0.05) \<longrightarrow> splitClip now s = s) \<and>
   startTime (makeClip item start now rnd) = max 0 start \<and>
   (media_type item = Video \<longrightarrow>
      addClipToTimeline item start now rnd s =
        Returns ((saveState s)\<lparr>videoTrack := videoTrack s @ [makeClip item start now rnd]\<rparr>))"
proof -
  have 1: "(\<forall>t\<in>set (lanes s). \<forall>c\<in>set t. clip_id c \<noteq> cid) \<longrightarrow>
      updateClip cid u s = s \<and>
      (selectedClipId s = Some cid \<longrightarrow> splitClip now s = s) \<and>
      deleteClip cid s =
        (saveState s)\<lparr>selectedClipId :=
           (if selectedClipId s = Some cid then None else selectedClipId s)\<rparr> \<and>
      lanes (deleteClip cid s) = lanes s \<and>
      playbackTime (deleteClip cid s) = playbackTime s \<and>
      zoom (deleteClip cid s) = zoom s"
  proof
    assume h: "\<forall>t\<in>set (lanes s). \<forall>c\<in>set t. clip_id c \<noteq> cid"
    have a: "updateClip cid u s = s" by (rule updateClip_unknown[OF h])
    have b: "selectedClipId s = Some cid \<longrightarrow> splitClip now s = s"
      by (simp add: splitClip_def findClip_unknown[OF h])
    note c = deleteClip_unknown[OF h]
    have d: "lanes (deleteClip cid s) = lanes s \<and>
      playbackTime (deleteClip cid s) = playbackTime s \<and>
      zoom (deleteClip cid s) = zoom s"
      unfolding c by (simp add: lanes_def)
    from a b c d show "updateClip cid u s = s \<and>
      (selectedClipId s = Some cid \<longrightarrow> splitClip now s = s) \<and>
      deleteClip cid s =
        (saveState s)\<lparr>selectedClipId :=
           (if selectedClipId s = Some cid then None else selectedClipId s)\<rparr> \<and>
      lanes (deleteClip cid s) = lanes s \<and>
      playbackTime (deleteClip cid s) = playbackTime s \<and>
      zoom (deleteClip cid s) = zoom s" by blast
  qed
  have 2: "selectedClipId s = None \<longrightarrow> splitClip now s = s"
    by (simp add: splitClip_def)
  have 3: "selectedClipId s = Some cid \<and> findClip cid s = Some C \<and>
      \<not> (0.05 < playbackTime s - startTime C \<and>
         playbackTime s - startTime C < duration C - 0.05) \<longrightarrow> splitClip now s = s"
    by (auto simp add: splitClip_def Let_def)
  have 4: "startTime (makeClip item start now rnd) = max 0 start"
    by (simp add: makeClip_def)
  have 5: "media_type item = Video \<longrightarrow>
      addClipToTimeline item start now rnd s =
        Returns ((saveState s)\<lparr>videoTrack := videoTrack s @ [makeClip item start now rnd]\<rparr>)"
    by (simp add: addClipToTimeline_def Let_def)
  from 1 2 3 4 5 show ?thesis by blast
qed



lemma one_song_state:
  "one_song = \<lparr>media = [], videoTrack = [], audioTracks = [[makeClip song 0 1 ''a''], []],
     playbackTime = 0, isPlaying = False, zoom = 20, selectedClipId = None,
     historyStack = [stringify initial], redoStack = []\<rparr>"
  by (simp add: one_song_def addClipToTimeline_def Let_def initial_def song_def
      checkCollision_def saveState_def)

lemma undone_song_state:
  "undone_song = initial\<lparr>redoStack := [stringify one_song]\<rparr>"
  unfolding undone_song_def undo_def Let_def
  by (simp add: one_song_state restoreState_def stringify_def initial_def)

theorem unknown_id_and_range_witness:
  "updateClip ''ghost'' (no_patch\<lparr>patch_startTime := Some 3\<rparr>) (film_at 20) = film_at 20 \<and>
   lanes (deleteClip ''ghost'' (film_at 20)) = lanes (film_at 20) \<and>
   splitClip 99 ((film_at 20)\<lparr>selectedClipId := Some ''ghost''\<rparr>) =
     (film_at 20)\<lparr>selectedClipId := Some ''ghost''\<rparr> \<and>
   splitClip 99 ((film_at 20)\<lparr>selectedClipId := None\<rparr>) =
     (film_at 20)\<lparr>selectedClipId := None\<rparr> \<and>
   findClip (newClipId 7 ''ab'') (film_at 20) = Some (makeClip film 0 7 ''ab'') \<and>
   splitClip 99 (film_at 20) = film_at 20 \<and>
   startTime (makeClip film (-3) 7 ''ab'') = 0 \<and>
   addClipToTimeline film (-3) 8 ''cd'' (film_at 20) =
     Returns ((saveState (film_at 20))\<lparr>videoTrack :=
        [makeClip film 0 7 ''ab'', makeClip film (-3) 8 ''cd'']\<rparr>)"
proof -
  let ?s = "film_at 20"
  let ?g = "(film_at 20)\<lparr>selectedClipId := Some ''ghost''\<rparr>"
  let ?n = "(film_at 20)\<lparr>selectedClipId := None\<rparr>"
  let ?C = "makeClip film 0 7 ''ab''"
  have lanes: "lanes ?s = [[?C], [], []]" by (simp add: lanes_def film_at_fields)
  have idC: "clip_id ?C = newClipId 7 ''ab''" by (simp add: makeClip_def)
  have ghost: "newClipId 7 ''ab'' \<noteq> ''ghost''" by (simp add: newClipId_def)
  have u1: "\<forall>t\<in>set (lanes ?s). \<forall>c\<in>set t. clip_id c \<noteq> ''ghost''"
    using ghost by (simp add: lanes idC)
  have u2: "\<forall>t\<in>set (lanes ?g). \<forall>c\<in>set t. clip_id c \<noteq> ''ghost''"
    using ghost by (simp add: lanes_def film_at_fields idC)
  have fc: "findClip (newClipId 7 ''ab'') ?s = Some ?C"
    by (simp add: findClip_def film_at_fields hasId_def idC)
  have out: "\<not> (0.05 < playbackTime ?s - startTime ?C \<and>
               playbackTime ?s - startTime ?C < duration ?C - 0.05)"
    by (simp add: film_at_fields makeClip_def film_def)
  have vid: "media_type film = Video" by (simp add: film_def)
  from unknown_id_and_range[of ?s "''ghost''" "no_patch\<lparr>patch_startTime := Some 3\<rparr>" 99
      ?C film "-3" "''ab''"] u1
  have a: "updateClip ''ghost'' (no_patch\<lparr>patch_startTime := Some 3\<rparr>) ?s = ?s"
    and b: "lanes (deleteClip ''ghost'' ?s) = lanes ?s" by blast+
  from unknown_id_and_range[of ?g "''ghost''" no_patch 99 ?C film "-3" "''ab''"] u2
  have c: "splitClip 99 ?g = ?g" by simp
  from unknown_id_and_range[of ?n "''ghost''" no_patch 99 ?C film "-3" "''ab''"]
  have d: "splitClip 99 ?n = ?n" by simp
  from unknown_id_and_range[of ?s "newClipId 7 ''ab''" no_patch 99 ?C film "-3" "''ab''"]
    fc out
  have e: "splitClip 99 ?s = ?s" by (simp add: film_at_fields)
  from unknown_id_and_range[of ?s "''ghost''" no_patch 7 ?C film "-3" "''ab''"]
  have f: "startTime (makeClip film (-3) 7 ''ab'') = 0" by simp
  from unknown_id_and_range[of ?s "''ghost''" no_patch 8 ?C film "-3" "''cd''"] vid
  have g: "addClipToTimeline film (-3) 8 ''cd'' ?s =
     Returns ((saveState ?s)\<lparr>videoTrack := [?C, makeClip film (-3) 8 ''cd'']\<rparr>)"
    by (simp add: film_at_fields)
  from a b c d e f g fc show ?thesis by blast
qed

theorem deleteClip_unknown_id_counterexample:
  "lanes undone_song = [[], [], []] \<and>
   historyStack undone_song = [] \<and>
   redoStack undone_song = [stringify one_song] \<and>
   deleteClip ''ghost'' undone_song \<noteq> undone_song \<and>
   historyStack (deleteClip ''ghost'' undone_song) = [stringify undone_song] \<and>
   redoStack (deleteClip ''ghost'' undone_song) = [] \<and>
   redo (deleteClip ''ghost'' undone_song) \<noteq> redo undone_song \<and>
   audioTracks (updateClip (newClipId 1 ''a'') (no_patch\<lparr>patch_startTime := Some (-5)\<rparr>)
      one_song) = [[(makeClip song 0 1 ''a'')\<lparr>startTime := -5\<rparr>], []]"
proof -
  have d: "deleteClip ''ghost'' undone_song =
       initial\<lparr>historyStack := [stringify initial], redoStack := []\<rparr>"
    by (simp add: undone_song_state deleteClip_def saveState_def Let_def initial_def
        stringify_def)
  have s: "stringify undone_song = stringify initial"
    by (simp add: undone_song_state stringify_def)
  have r: "redo undone_song \<noteq> redo (deleteClip ''ghost'' undone_song)"
    unfolding d by (simp add: undone_song_state redo_def Let_def restoreState_def
        initial_def stringify_def one_song_state)
  have u: "audioTracks (updateClip (newClipId 1 ''a'')
      (no_patch\<lparr>patch_startTime := Some (-5)\<rparr>) one_song) =
      [[(makeClip song 0 1 ''a'')\<lparr>startTime := -5\<rparr>], []]"
    by (simp add: one_song_state updateClip_def Let_def findIndex_def updateTrack_def
        hasId_def makeClip_def spread_def no_patch_def orElse_def)
  show ?thesis using r u
    by (simp add: d s) (simp add: undone_song_state lanes_def initial_def)
qed

section \<open>Silence removal and the history in script.js\<close>


lemma trackOf_setTrack [simp]: "trackOf ty (setTrack ty v s) = v"
  by (cases ty) (simp_all add: trackOf_def setTrack_def)

lemma setTrack_setTrack [simp]: "setTrack ty v (setTrack ty w s) = setTrack ty v s"
  by (cases ty) (simp_all add: setTrack_def)

lemma setTrack_fields [simp]:
  "historyStackJ (setTrack ty v s) = historyStackJ s"
  "redoStackJ (setTrack ty v s) = redoStackJ s"
  "selectedClipIdJ (setTrack ty v s) = selectedClipIdJ s"
  "playbackTimeJ (setTrack ty v s) = playbackTimeJ s"
  "zoomJ (setTrack ty v s) = zoomJ s"
  by (cases ty; simp add: setTrack_def)+

lemma saveState_js_fields [simp]:
  "tracksVideo (saveState_js s) = tracksVideo s"
  "tracksAudio (saveState_js s) = tracksAudio s"
  "trackOf ty (saveState_js s) = trackOf ty s"
  "selectedClipIdJ (saveState_js s) = selectedClipIdJ s"
  "playbackTimeJ (saveState_js s) = playbackTimeJ s"
  "zoomJ (saveState_js s) = zoomJ s"
  "snapshotJ (saveState_js s) = snapshotJ s"
  by (simp_all add: saveState_js_def Let_def trackOf_def snapshotJ_def split: kind.splits)

lemma saveState_js_history:
  "historyStackJ (saveState_js s) = capped (historyStackJ s @ [snapshotJ s])"
  by (simp add: saveState_js_def Let_def capped_def)

lemma capped_last: "last (capped (h @ [x])) = x"
  by (cases h) (simp_all add: capped_def last_tl)

lemma capped_nonempty': "capped (h @ [x]) \<noteq> []"
  by (cases h) (auto simp: capped_def)

lemma capped_two:
  "butlast (capped (capped (h @ [x]) @ [y])) \<noteq> [] \<and>
   last (butlast (capped (capped (h @ [x]) @ [y]))) = x"
proof -
  have "capped (h @ [x]) = h @ [x] \<or> capped (h @ [x]) = tl h @ [x]"
    by (cases h) (auto simp: capped_def)
  then obtain g where g: "capped (h @ [x]) = g @ [x]" by blast
  show ?thesis
  proof (cases "length (g @ [x] @ [y]) > 50")
    case True
    then obtain a g' where "g = a # g'" by (cases g) auto
    then show ?thesis unfolding g using True by (simp add: capped_def butlast_append)
  next
    case False
    then show ?thesis unfolding g by (simp add: capped_def butlast_append)
  qed
qed

lemma undo_js_unfold:
  "historyStackJ s \<noteq> [] \<Longrightarrow>
   undo_js s = restoreState_js (last (historyStackJ s))
      (s\<lparr>redoStackJ := redoStackJ s @ [snapshotJ s],
         historyStackJ := butlast (historyStackJ s)\<rparr>)"
  by (simp add: undo_js_def Let_def)



lemma scan_loud:
  assumes "\<forall>i. a \<le> i \<and> i < b \<longrightarrow> amplitudeAt (channelData buf) i > 0.005"
  shows "foldl (scanStep buf) (sil, l, cs) [a..<b] =
           (if a < b then (False, if sil then a else l, cs) else (sil, l, cs))"
  using assms
proof (induction b)
  case 0
  then show ?case by simp
next
  case (Suc b)
  show ?case
  proof (cases "a \<le> b")
    case True
    have loud: "amplitudeAt (channelData buf) b > 0.005" using Suc.prems True by simp
    have ih: "foldl (scanStep buf) (sil, l, cs) [a..<b] =
           (if a < b then (False, if sil then a else l, cs) else (sil, l, cs))"
      using Suc by simp
    have "foldl (scanStep buf) (sil, l, cs) [a..<Suc b] =
          scanStep buf (foldl (scanStep buf) (sil, l, cs) [a..<b]) b"
      using True by simp
    also have "\<dots> = scanStep buf
            (if a < b then (False, if sil then a else l, cs) else (sil, l, cs)) b"
      by (simp only: ih)
    also have "\<dots> = (False, if sil then a else l, cs)"
      using loud True by (auto simp: scanStep_def)
    finally show ?thesis using True by simp
  next
    case False
    then show ?thesis by simp
  qed
qed

lemma scan_quiet:
  assumes "\<forall>i. a \<le> i \<and> i < b \<longrightarrow> \<not> amplitudeAt (channelData buf) i > 0.005"
  shows "foldl (scanStep buf) (sil, l, cs) [a..<b] =
           (if a < b
            then (True, if sil then l else a,
                  if sil then cs
                  else cs @ [\<lparr>chunk_start = real l / sampleRate buf,
                              chunk_end = real a / sampleRate buf\<rparr>])
            else (sil, l, cs))"
  using assms
proof (induction b)
  case 0
  then show ?case by simp
next
  case (Suc b)
  show ?case
  proof (cases "a \<le> b")
    case True
    have quiet: "\<not> amplitudeAt (channelData buf) b > 0.005" using Suc.prems True by simp
    have ih: "foldl (scanStep buf) (sil, l, cs) [a..<b] =
           (if a < b
            then (True, if sil then l else a,
                  if sil then cs
                  else cs @ [\<lparr>chunk_start = real l / sampleRate buf,
                              chunk_end = real a / sampleRate buf\<rparr>])
            else (sil, l, cs))"
      using Suc by simp
    have "foldl (scanStep buf) (sil, l, cs) [a..<Suc b] =
          scanStep buf (foldl (scanStep buf) (sil, l, cs) [a..<b]) b"
      using True by simp
    also have "\<dots> = scanStep buf (if a < b
            then (True, if sil then l else a,
                  if sil then cs
                  else cs @ [\<lparr>chunk_start = real l / sampleRate buf,
                              chunk_end = real a / sampleRate buf\<rparr>])
            else (sil, l, cs)) b"
      by (simp only: ih)
    also have "\<dots> = (True, if sil then l else a,
                  if sil then cs
                  else cs @ [\<lparr>chunk_start = real l / sampleRate buf,
                              chunk_end = real a / sampleRate buf\<rparr>])"
      using quiet True by (auto simp: scanStep_def)
    finally show ?thesis using True by simp
  next
    case False
    then show ?thesis by simp
  qed
qed

lemma talk_amplitude:
  "i < 8000 \<Longrightarrow> amplitudeAt (channelData talk) i = 1 / 2"
  "8000 \<le> i \<Longrightarrow> i < 16000 \<Longrightarrow> amplitudeAt (channelData talk) i = 0"
  by (simp_all add: amplitudeAt_def talk_def nth_append)

lemma talk_chunks:
  "detectChunks talk 16000 = [\<lparr>chunk_start = 0, chunk_end = 1\<rparr>]"
proof -
  have split: "[0..<16000] = [0..<8000] @ [8000..<16000]"
    using upt_add_eq_append[of 0 8000 8000] by (simp del: upt_rec_numeral)
  have loud: "\<forall>i. 0 \<le> i \<and> i < 8000 \<longrightarrow> amplitudeAt (channelData talk) i > 0.005"
    by (simp add: talk_amplitude)
  have quiet: "\<forall>i. 8000 \<le> i \<and> i < 16000 \<longrightarrow> \<not> amplitudeAt (channelData talk) i > 0.005"
    by (simp add: talk_amplitude)
  have sr: "sampleRate talk = 8000" by (simp add: talk_def)
  have 1: "foldl (scanStep talk) (True, 0, []) [0..<8000] = (False, 0, [])"
    unfolding scan_loud[OF loud] by simp
  have 2: "foldl (scanStep talk) (False, 0, []) [8000..<16000] =
             (True, 8000, [\<lparr>chunk_start = 0, chunk_end = 1\<rparr>])"
    unfolding scan_quiet[OF quiet] by (simp add: sr)
  show ?thesis
    unfolding detectChunks_def split foldl_append 1 2 by simp
qed



lemma withoutClip_saveState_js [simp]:
  "withoutClip ty clip (saveState_js s) = withoutClip ty clip s"
  by (simp add: withoutClip_def)

lemma splitIntoSegments_eq:
  "splitIntoSegments ty clip newClips s =
     setTrack ty (withoutClip ty clip s @ newClips) (saveState_js s)"
  by (simp add: splitIntoSegments_def Let_def)

lemma snapshotJ_setTrack_saveState_js [simp]:
  "snapshotJ (setTrack ty v (saveState_js s)) = snapshotJ (setTrack ty v s)"
  by (cases ty) (simp_all add: snapshotJ_def setTrack_def)

lemma removeSilence_applied:
  assumes "analyseSilence decoded s = Inr (ty, clip, segs)"
  shows "fst (removeSilence decoded ids s) =
     setTrack ty
       (filter notSilence (withoutClip ty clip s) @
        ripple (startTimeJ clip)
          (filter notSilence (makeClips clip ids segs (startTimeJ clip) 0)))
       (saveState_js
          (setTrack ty (withoutClip ty clip s @ makeClips clip ids segs (startTimeJ clip) 0)
             (saveState_js s)))"
  using assms
  by (simp add: removeSilence_def Let_def deleteSilence_def splitIntoSegments_eq)

lemma snapshotJ_restore:
  "snapshotJ (restoreState_js snap s) = snap\<lparr>snapJ_playbackTime := max 0 (snapJ_playbackTime snap)\<rparr>"
  by (cases snap) (simp add: snapshotJ_def restoreState_js_def)

lemma undo_js_snapshot:
  "historyStackJ s \<noteq> [] \<Longrightarrow>
   snapshotJ (undo_js s) =
     (last (historyStackJ s))\<lparr>snapJ_playbackTime :=
        max 0 (snapJ_playbackTime (last (historyStackJ s)))\<rparr> \<and>
   historyStackJ (undo_js s) = butlast (historyStackJ s)"
  by (simp add: undo_js_unfold snapshotJ_restore) (simp add: restoreState_js_def)

lemma removeSilence_history:
  assumes "analyseSilence decoded s = Inr (trackType, clip, allSegments)"
  shows "historyStackJ (fst (removeSilence decoded ids s)) =
           capped (capped (historyStackJ s @ [snapshotJ s]) @
             [snapshotJ (setTrack trackType (withoutClip trackType clip s @
                  makeClips clip ids allSegments (startTimeJ clip) 0) s)]) \<and>
         snapshotJ (undo_js (fst (removeSilence decoded ids s))) =
           (snapshotJ (setTrack trackType (withoutClip trackType clip s @
                  makeClips clip ids allSegments (startTimeJ clip) 0) s))
             \<lparr>snapJ_playbackTime := max 0 (playbackTimeJ s)\<rparr> \<and>
         snapshotJ (undo_js (undo_js (fst (removeSilence decoded ids s)))) =
           (snapshotJ s)\<lparr>snapJ_playbackTime := max 0 (playbackTimeJ s)\<rparr>"
proof -
  let ?new = "makeClips clip ids allSegments (startTimeJ clip) 0"
  let ?split = "setTrack trackType (withoutClip trackType clip s @ ?new) s"
  let ?after = "fst (removeSilence decoded ids s)"
  let ?H = "capped (capped (historyStackJ s @ [snapshotJ s]) @ [snapshotJ ?split])"
  have h: "historyStackJ ?after = ?H"
    unfolding removeSilence_applied[OF assms]
    by (simp add: saveState_js_history)
  have ne: "historyStackJ ?after \<noteq> []" unfolding h by (rule capped_nonempty')
  have pt: "snapJ_playbackTime (snapshotJ ?split) = playbackTimeJ s"
    by (simp add: snapshotJ_def)
  from undo_js_snapshot[OF ne]
  have u1: "snapshotJ (undo_js ?after) =
      (snapshotJ ?split)\<lparr>snapJ_playbackTime := max 0 (playbackTimeJ s)\<rparr>"
    and h1: "historyStackJ (undo_js ?after) = butlast ?H"
    unfolding h capped_last by (simp_all add: pt)
  from capped_two[of "historyStackJ s" "snapshotJ s" "snapshotJ ?split"]
  have ne1: "historyStackJ (undo_js ?after) \<noteq> []"
    and l1: "last (historyStackJ (undo_js ?after)) = snapshotJ s"
    unfolding h1 by blast+
  from undo_js_snapshot[OF ne1]
  have u2: "snapshotJ (undo_js (undo_js ?after)) =
      (snapshotJ s)\<lparr>snapJ_playbackTime := max 0 (playbackTimeJ s)\<rparr>"
    unfolding l1 by (simp add: snapshotJ_def)
  from h u1 u2 show ?thesis by blast
qed


lemma talk_analysis:
  "analyseSilence (Some talk) voice_selected =
     Inr (Audio, voiceClip,
          [\<lparr>seg_start = 0, seg_end = 1, seg_type = SpeechSeg\<rparr>,
           \<lparr>seg_start = 1, seg_end = 2, seg_type = SilenceSeg\<rparr>])"
proof -
  have len: "length (replicate 8000 (1 / 2 :: real) @ replicate 8000 0) = 16000" by simp
  have ch: "channelData talk = [replicate 8000 (1 / 2) @ replicate 8000 0]"
    by (simp add: talk_def)
  have sel: "selectedClipIdJ voice_selected = Some ''clip_5''"
    by (simp add: voice_selected_def)
  have fs: "findSelected ''clip_5'' voice_selected = Some (Audio, voiceClip)"
    by (simp add: findSelected_def voice_selected_def editorInitial_def voiceClip_def)
  have md: "find (\<lambda>m. media_id m = mediaIdJ voiceClip) (mediaJ voice_selected) = Some voice"
    by (simp add: voice_selected_def voiceClip_def voice_def)
  have segs: "allSegmentsOf voiceClip [\<lparr>chunk_start = 0, chunk_end = 1\<rparr>] =
          [\<lparr>seg_start = 0, seg_end = 1, seg_type = SpeechSeg\<rparr>,
           \<lparr>seg_start = 1, seg_end = 2, seg_type = SilenceSeg\<rparr>]"
    by (simp add: allSegmentsOf_def segmentStep_def Let_def voiceClip_def)
  have vis: "filter (\<lambda>chunk. chunk_end chunk > offsetJ voiceClip \<and>
                chunk_start chunk < offsetJ voiceClip + durationJ voiceClip)
               [\<lparr>chunk_start = 0, chunk_end = 1\<rparr>] = [\<lparr>chunk_start = 0, chunk_end = 1\<rparr>]"
    by (simp add: voiceClip_def)
  show ?thesis
    unfolding analyseSilence_def sel
    by (simp only: fs md ch len talk_chunks vis segs Let_def option.case prod.case list.case
        list.size if_False) simp
qed



lemma talk_clips:
  "makeClips voiceClip splitIds
     [\<lparr>seg_start = 0, seg_end = 1, seg_type = SpeechSeg\<rparr>,
      \<lparr>seg_start = 1, seg_end = 2, seg_type = SilenceSeg\<rparr>] (startTimeJ voiceClip) 0 =
   [speechPart, silencePart]"
  by (simp add: Let_def voiceClip_def speechPart_def silencePart_def)

lemma voice_without: "withoutClip Audio voiceClip voice_selected = []"
  by (simp add: withoutClip_def trackOf_def voice_selected_def)

lemma voice_snapshot:
  "snapshotJ voice_selected = \<lparr>snapJ_video = [], snapJ_audio = [voiceClip],
     snapJ_selectedClipId = Some ''clip_5'', snapJ_playbackTime = 0, snapJ_zoom = 10\<rparr>"
  by (simp add: snapshotJ_def voice_selected_def editorInitial_def)

lemma voice_split_snapshot:
  "snapshotJ (setTrack Audio [speechPart, silencePart] voice_selected) =
     \<lparr>snapJ_video = [], snapJ_audio = [speechPart, silencePart],
      snapJ_selectedClipId = Some ''clip_5'', snapJ_playbackTime = 0, snapJ_zoom = 10\<rparr>"
  by (simp add: snapshotJ_def setTrack_def voice_selected_def editorInitial_def)

lemma tracks_of_snapshot:
  "tracksAudio s = snapJ_audio (snapshotJ s)" "tracksVideo s = snapJ_video (snapshotJ s)"
  by (simp_all add: snapshotJ_def)

section \<open>Saving twice, engine by engine\<close>

lemma saveState_twice_history:
  "historyStack (saveState (saveState s)) =
     (if historyStack s \<noteq> [] \<and> last (historyStack s) = stringify s then historyStack s
      else if length (historyStack s) < 50 then historyStack s @ [stringify s]
      else tl (historyStack s) @ [stringify s])"
proof (cases "historyStack s \<noteq> [] \<and> last (historyStack s) = stringify s")
  case True
  then show ?thesis by (simp add: saveState_duplicate)
next
  case False
  then have "historyStack s = [] \<or> last (historyStack s) \<noteq> stringify s" by blast
  from saveState_push[OF this]
  have h: "historyStack (saveState s) =
      (if length (historyStack s) < 50 then historyStack s @ [stringify s]
       else tl (historyStack s) @ [stringify s])" by simp
  show ?thesis unfolding saveState_idem h using False by auto
qed

lemma stringify3_stacks:
  "stringify3 (s\<lparr>historyStack3 := h, redoStack3 := r\<rparr>) = stringify3 s"
  by (simp add: stringify3_def)

lemma saveState3_idem: "saveState3 (saveState3 s) = saveState3 s"
proof (cases "historyStack3 s \<noteq> [] \<and> last (historyStack3 s) = stringify3 s")
  case True
  then show ?thesis by (simp add: saveState3_def)
next
  case False
  define h' where "h' = (if length (historyStack3 s @ [stringify3 s]) > 50
     then tl (historyStack3 s @ [stringify3 s]) else historyStack3 s @ [stringify3 s])"
  have s1: "saveState3 s = s\<lparr>historyStack3 := h', redoStack3 := []\<rparr>"
    using False by (auto simp add: saveState3_def Let_def h'_def)
  have l: "last h' = stringify3 s" unfolding h'_def by (rule last_capped)
  have n: "h' \<noteq> []" unfolding h'_def by (rule capped_nonempty)
  have "saveState3 (s\<lparr>historyStack3 := h', redoStack3 := []\<rparr>) =
        s\<lparr>historyStack3 := h', redoStack3 := []\<rparr>"
    using l n by (simp add: saveState3_def Let_def stringify3_stacks)
  then show ?thesis by (simp add: s1)
qed

lemma saveState_js_twice:
  "historyStackJ (saveState_js (saveState_js s)) =
     capped (capped (historyStackJ s @ [snapshotJ s]) @ [snapshotJ s])"
  by (simp add: saveState_js_history)

text \<open>
  C3, engine by engine. In the state service (and in the second engine, whose
  \<open>saveState\<close> is the same) two calls of \<open>saveState\<close> with nothing changed in between
  leave what one call leaves: the second call finds its snapshot on top of the history and
  returns at once, so the two calls together add the snapshot at most once, at the end,
  after dropping the oldest entry of a full history. \<open>saveState\<close> of script.js does not
  compare: each call pushes, and after two calls the two entries on top of the history
  are the same snapshot.
\<close>

theorem saveState_twice_by_engine:
  "saveState (saveState s) = saveState s \<and>
   historyStack (saveState (saveState s)) =
     (if historyStack s \<noteq> [] \<and> last (historyStack s) = stringify s then historyStack s
      else if length (historyStack s) < 50 then historyStack s @ [stringify s]
      else tl (historyStack s) @ [stringify s]) \<and>
   saveState3 (saveState3 e) = saveState3 e \<and>
   historyStackJ (saveState_js (saveState_js j)) =
     capped (capped (historyStackJ j @ [snapshotJ j]) @ [snapshotJ j]) \<and>
   last (historyStackJ (saveState_js (saveState_js j))) = snapshotJ j \<and>
   butlast (historyStackJ (saveState_js (saveState_js j))) \<noteq> [] \<and>
   last (butlast (historyStackJ (saveState_js (saveState_js j)))) = snapshotJ j"
proof -
  have a: "saveState (saveState s) = saveState s" by (rule saveState_idem)
  note b = saveState_twice_history[of s]
  have c: "saveState3 (saveState3 e) = saveState3 e" by (rule saveState3_idem)
  note d = saveState_js_twice[of j]
  have e: "last (historyStackJ (saveState_js (saveState_js j))) = snapshotJ j"
    unfolding d by (rule capped_last)
  have f: "butlast (historyStackJ (saveState_js (saveState_js j))) \<noteq> [] \<and>
      last (butlast (historyStackJ (saveState_js (saveState_js j)))) = snapshotJ j"
    unfolding d by (rule capped_two)
  from a b c d e f show ?thesis by blast
qed

theorem saveState_twice_by_engine_witness:
  "saveState (saveState initial) = saveState initial \<and>
   historyStack (saveState (saveState initial)) = [stringify initial] \<and>
   saveState (saveState one_song) = saveState one_song \<and>
   historyStack (saveState (saveState one_song)) = [stringify initial, stringify one_song] \<and>
   saveState3 (saveState3 editor3Initial) = saveState3 editor3Initial \<and>
   historyStackJ (saveState_js (saveState_js voice_selected)) =
     [snapshotJ voice_selected, snapshotJ voice_selected]"
proof -
  have a: "one_song = (saveState initial)\<lparr>audioTracks := [[makeClip song 0 1 ''a''], []]\<rparr>"
    by (simp add: one_song_def addClipToTimeline_def Let_def initial_def song_def
        checkCollision_def)
  have b: "historyStack one_song = [stringify initial]"
    by (simp add: a saveState_def Let_def initial_def)
  have c: "stringify initial \<noteq> stringify one_song"
    by (simp add: a stringify_def initial_def)
  have d: "historyStack initial = []" by (simp add: initial_def)
  have v: "historyStackJ voice_selected = []"
    by (simp add: voice_selected_def editorInitial_def)
  note t1 = saveState_twice_by_engine[of initial editor3Initial voice_selected]
  note t2 = saveState_twice_by_engine[of one_song editor3Initial voice_selected]
  have 1: "historyStack (saveState (saveState initial)) = [stringify initial]"
    using t1[THEN conjunct2, THEN conjunct1] by (simp only: d) simp
  have 2: "historyStack (saveState (saveState one_song)) =
             [stringify initial, stringify one_song]"
    using t2[THEN conjunct2, THEN conjunct1] c by (simp only: b) simp
  have 3: "saveState3 (saveState3 editor3Initial) = saveState3 editor3Initial"
    using t1 by blast
  have 4: "historyStackJ (saveState_js (saveState_js voice_selected)) =
     [snapshotJ voice_selected, snapshotJ voice_selected]"
    using t1[THEN conjunct2, THEN conjunct2, THEN conjunct2, THEN conjunct1]
    by (simp only: v) (simp add: capped_def)
  from t1[THEN conjunct1] t2[THEN conjunct1] 1 2 3 4
  show ?thesis by blast
qed

theorem saveState_js_twice_counterexample:
  "historyStackJ editorInitial = [] \<and>
   historyStackJ (saveState_js editorInitial) = [snapshotJ editorInitial] \<and>
   snapshotJ (saveState_js editorInitial) = snapshotJ editorInitial \<and>
   historyStackJ (saveState_js (saveState_js editorInitial)) =
     [snapshotJ editorInitial, snapshotJ editorInitial] \<and>
   length (historyStackJ (saveState_js (saveState_js editorInitial))) = 2"
  by (simp add: saveState_js_history capped_def editorInitial_def)

section \<open>removeSilence of script.js: the segments of the clip\<close>






















section \<open>removeSilenceTool: the clips that replace the source clip\<close>


lemma inOrder_bounds: "inOrder a rs b \<Longrightarrow> a \<le> b"
proof (induction rs arbitrary: a)
  case Nil
  then show ?case by simp
next
  case (Cons r rs)
  have "range_end r \<le> b" using Cons by simp
  then show ?case using Cons.prems by simp
qed












lemma autoClips_ids:
  "map idJ (autoClips clip ids rate segs t k) = map ids [k..<k + length segs]"
proof (induction segs arbitrary: t k)
  case Nil
  then show ?case by simp
next
  case (Cons r segs)
  have "[k..<k + length (r # segs)] = k # [Suc k..<Suc k + length segs]"
    by (simp add: upt_rec)
  then show ?case using Cons by (simp add: Let_def)
qed



lemma analyseTool_Inr:
  assumes "analyseTool decoded s = Inr (clip, buffer, segs, s1)"
  shows "segs \<noteq> [] \<and>
         (\<exists>sel. selectedClipId3 s = Some sel \<and> findClip3 sel s = Some clip) \<and>
         segs = speechSegmentsOf buffer (hd (channelData buffer)) clip \<and>
         video3 s1 = video3 s \<and> audio3 s1 = audio3 s \<and>
         stringify3 s1 = stringify3 s \<and> historyStack3 s1 = historyStack3 s \<and>
         redoStack3 s1 = redoStack3 s"
  using assms unfolding analyseTool_def Let_def
  by (auto split: option.splits if_splits list.splits prod.splits simp: stringify3_def)

lemma saveState3_tracks:
  "video3 (saveState3 s) = video3 s \<and> audio3 (saveState3 s) = audio3 s"
  unfolding saveState3_def Let_def by simp

lemma removeSilenceTool_applied:
  assumes "analyseTool decoded s = Inr (clip, buffer, segs, s1)"
    and "typeJ clip = Video \<or> audio3 s \<noteq> []"
  shows "removeSilenceTool decoded ids s =
      Returns3 ((saveState3 s1)
        \<lparr>video3 := (if typeJ clip = Video
                    then filter (\<lambda>c. idJ c \<noteq> idJ clip) (video3 s) @
                         autoClips clip ids (sampleRate buffer) segs (startTimeJ clip) 0
                    else filter (\<lambda>c. idJ c \<noteq> idJ clip) (video3 s)),
         audio3 := (if typeJ clip = Video then map (removeFirstId (idJ clip)) (audio3 s)
                    else (hd (map (removeFirstId (idJ clip)) (audio3 s)) @
                          autoClips clip ids (sampleRate buffer) segs (startTimeJ clip) 0)
                         # tl (map (removeFirstId (idJ clip)) (audio3 s)))\<rparr>) None"
proof -
  note an = analyseTool_Inr[OF assms(1)]
  have v1: "video3 (saveState3 s1) = video3 s"
    using an saveState3_tracks[of s1] by simp
  have a1: "audio3 (saveState3 s1) = audio3 s"
    using an saveState3_tracks[of s1] by simp
  show ?thesis
  proof (cases "typeJ clip = Video")
    case True
    show ?thesis
      unfolding removeSilenceTool_def assms(1) Let_def
      by (simp add: True v1 a1)
  next
    case False
    then have "audio3 s \<noteq> []" using assms(2) by simp
    then obtain lane0 rest where lanes: "audio3 s = lane0 # rest"
      by (cases "audio3 s") auto
    show ?thesis
      unfolding removeSilenceTool_def assms(1) Let_def
      by (simp add: False v1 a1 lanes)
  qed
qed

lemmas double_eval = double_def exponentOf_def roundEven_def Let_def bitLength.simps

lemma take_data:
  "0 \<le> j \<Longrightarrow> j < 1600 \<Longrightarrow>
     sampleAbs takeSamples j = Some (1 / 2)"
  "1600 \<le> j \<Longrightarrow> j < 32299 \<Longrightarrow>
     sampleAbs takeSamples j = Some 0"
  "32299 \<le> j \<Longrightarrow> j < 34000 \<Longrightarrow>
     sampleAbs takeSamples j = Some (1 / 2)"
  unfolding sampleAbs_def takeSamples_def by (auto simp: nth_append)

lemma take_data_le:
  "sampleAbs takeSamples j = Some x
   \<Longrightarrow> x \<le> 1 / 2"
  unfolding sampleAbs_def takeSamples_def by (auto simp: nth_append split: if_splits)

lemma take_threshold: "takeThreshold = 5404319552844595 / 72057594037927936"
  unfolding takeThreshold_def by (simp add: double_eval)

lemma take_threshold_is:
  "max (double 0.01) (double (1 / 2 * double 0.15)) = takeThreshold"
  by (simp add: takeThreshold_def)

lemma take_limit: "double (double (double 0.15 * 8000) / 100) = 12"
  by (simp add: double_eval)

lemma take_samples:
  "startSampleOf take takeClip = 0" "endSampleOf take takeClip = 34000"
  unfolding startSampleOf_def endSampleOf_def take_def takeClip_def
  by (simp_all add: double_eval)


lemma kept_lengths:
  "double (1600 / 8000) > double 0.15" "double (1700 / 8000) > double 0.15"
  "double (1701 / 8000) > double 0.15"
  "double (1700 / 8000) < double (1701 / 8000)"
  by (simp_all add: double_eval)


lemma maxScan_stays:
  "(\<And>j x. sampleAbs data j = Some x \<Longrightarrow> x \<le> v) \<Longrightarrow> maxScan data e i v = v"
proof (induction data e i v rule: maxScan.induct)
  case (1 data e i v)
  show ?case
  proof (cases "i < e")
    case False
    then show ?thesis by (subst maxScan.simps) simp
  next
    case True
    have new: "(case sampleAbs data i of None \<Rightarrow> v | Some x \<Rightarrow> if x > v then x else v) = v"
      using "1.prems"[of i] by (cases "sampleAbs data i") auto
    have "maxScan data e (i + 100) v = v"
      using "1.IH"[OF True] "1.prems" unfolding new by simp
    then show ?thesis using True by (subst maxScan.simps) (simp add: new)
  qed
qed

lemma maxScan_peak:
  assumes "sampleAbs data i = Some v" and "\<And>j x. sampleAbs data j = Some x \<Longrightarrow> x \<le> v"
    and "m \<le> v" and "i < e"
  shows "maxScan data e i m = v"
proof -
  have "maxScan data e i m = maxScan data e (i + 100) v"
    using assms(3,4) by (subst maxScan.simps) (simp add: assms(1))
  also have "\<dots> = v" by (rule maxScan_stays) (rule assms(2))
  finally show ?thesis .
qed

lemma rangeStep_speech:
  "above (sampleAbs data i) th \<Longrightarrow>
   rangeStep data th lm e i (rs, st, True) = (rs, st, True)"
  unfolding rangeStep_def Let_def above_def atMost_def
  by (simp split: option.splits)

lemma rangeStep_silence:
  "\<not> above (sampleAbs data i) th \<Longrightarrow>
   rangeStep data th lm e i (rs, st, False) = (rs, st, False)"
  unfolding rangeStep_def Let_def by simp

lemma rangeStep_speech_begins:
  "above (sampleAbs data i) th \<Longrightarrow>
   rangeStep data th lm e i (rs, st, False) =
     (rs @ [\<lparr>range_start = st, range_end = i, range_type = SilenceSeg\<rparr>], i, True)"
  unfolding rangeStep_def Let_def by simp

lemma rangeStep_speech_ends:
  "atMost (sampleAbs data i) th \<Longrightarrow> \<not> above (sampleAbs data i) th \<Longrightarrow>
   \<not> futureSpeech data th lm e i 1 \<Longrightarrow>
   rangeStep data th lm e i (rs, st, True) =
     (rs @ [\<lparr>range_start = st, range_end = i, range_type = SpeechSeg\<rparr>], i, False)"
  unfolding rangeStep_def Let_def by simp

lemma futureSpeech_quiet:
  "(\<And>t. j \<le> t \<Longrightarrow> real_of_int t < lm \<Longrightarrow> i + t * 100 < e \<Longrightarrow>
        \<not> above (sampleAbs data (i + t * 100)) th) \<Longrightarrow>
   \<not> futureSpeech data th lm e i j"
proof (induction data th lm e i j rule: futureSpeech.induct)
  case (1 data th lm e i j)
  show ?case
  proof (cases "real_of_int j < lm \<and> i + j * 100 < e")
    case False
    then show ?thesis by (subst futureSpeech.simps) auto
  next
    case True
    have here: "\<not> above (sampleAbs data (i + j * 100)) th"
      using "1.prems"[of j] True by simp
    have "\<not> futureSpeech data th lm e i (j + 1)"
      using "1.IH"[OF True here] "1.prems" by simp
    then show ?thesis using True here by (subst futureSpeech.simps) simp
  qed
qed

lemma scanRanges_unfold:
  "i < e \<Longrightarrow> scanRanges data th lm e i st =
     scanRanges data th lm e (i + 100) (rangeStep data th lm e i st)"
  by (subst scanRanges.simps) simp

lemma scanRanges_skip:
  "(\<And>t. t < k \<Longrightarrow> rangeStep data th lm e (i + 100 * int t) st = st) \<Longrightarrow>
   i + 100 * int k \<le> e \<Longrightarrow>
   scanRanges data th lm e i st = scanRanges data th lm e (i + 100 * int k) st"
proof (induction k)
  case 0
  then show ?case by simp
next
  case (Suc k)
  have "scanRanges data th lm e i st = scanRanges data th lm e (i + 100 * int k) st"
    using Suc by simp
  also have "\<dots> = scanRanges data th lm e (i + 100 * int k + 100)
      (rangeStep data th lm e (i + 100 * int k) st)"
    using Suc.prems(2) by (intro scanRanges_unfold) simp
  also have "\<dots> = scanRanges data th lm e (i + 100 * int (Suc k)) st"
    using Suc.prems(1)[of k] by (simp add: algebra_simps)
  finally show ?case .
qed

lemma scanRanges_speech:
  "(\<And>j. i \<le> j \<Longrightarrow> j < e \<Longrightarrow> above (sampleAbs data j) th) \<Longrightarrow> st0 = (rs, st, True) \<Longrightarrow>
   scanRanges data th lm e i st0 = (rs, st, True)"
proof (induction data th lm e i st0 rule: scanRanges.induct)
  case (1 data th lm e i st0)
  show ?case
  proof (cases "i < e")
    case False
    then show ?thesis using "1.prems"(2) by (subst scanRanges.simps) simp
  next
    case True
    have same: "rangeStep data th lm e i st0 = (rs, st, True)"
      unfolding "1.prems"(2) using "1.prems"(1)[of i] True by (simp add: rangeStep_speech)
    have "scanRanges data th lm e (i + 100) (rangeStep data th lm e i st0) = (rs, st, True)"
      by (rule "1.IH"[OF True _ same]) (simp add: "1.prems"(1))
    then show ?thesis using True by (subst scanRanges.simps) simp
  qed
qed


lemma take_loud:
  "0 \<le> j \<Longrightarrow> j < 1600 \<Longrightarrow> above (sampleAbs takeSamples j) takeThreshold"
  "32299 \<le> j \<Longrightarrow> j < 34000 \<Longrightarrow> above (sampleAbs takeSamples j) takeThreshold"
  by (simp_all add: take_data above_def take_threshold)

lemma take_quiet:
  "1600 \<le> j \<Longrightarrow> j < 32299 \<Longrightarrow> \<not> above (sampleAbs takeSamples j) takeThreshold"
  "1600 \<le> j \<Longrightarrow> j < 32299 \<Longrightarrow> atMost (sampleAbs takeSamples j) takeThreshold"
  by (simp_all add: take_data above_def atMost_def take_threshold)

lemma take_scan:
  "scanRanges takeSamples takeThreshold 12 34000 0 ([], 0, False) =
     ([\<lparr>range_start = 0, range_end = 0, range_type = SilenceSeg\<rparr>,
       \<lparr>range_start = 0, range_end = 1600, range_type = SpeechSeg\<rparr>,
       \<lparr>range_start = 1600, range_end = 32300, range_type = SilenceSeg\<rparr>], 32300, True)"
proof -
  let ?s1 = "([\<lparr>range_start = 0, range_end = 0, range_type = SilenceSeg\<rparr>], 0::int, True)"
  let ?s2 = "([\<lparr>range_start = 0, range_end = 0, range_type = SilenceSeg\<rparr>,
       \<lparr>range_start = 0, range_end = 1600, range_type = SpeechSeg\<rparr>], 1600::int, False)"
  let ?s3 = "([\<lparr>range_start = 0, range_end = 0, range_type = SilenceSeg\<rparr>,
       \<lparr>range_start = 0, range_end = 1600, range_type = SpeechSeg\<rparr>,
       \<lparr>range_start = 1600, range_end = 32300, range_type = SilenceSeg\<rparr>], 32300::int, True)"
  have a: "scanRanges takeSamples takeThreshold 12 34000 0 ([], 0, False) = scanRanges takeSamples takeThreshold 12 34000 100 ?s1"
    using scanRanges_unfold[of 0 34000 takeSamples takeThreshold 12 "([], 0, False)"]
    by (simp add: rangeStep_speech_begins take_loud)
  have b: "scanRanges takeSamples takeThreshold 12 34000 100 ?s1 = scanRanges takeSamples takeThreshold 12 34000 (100 + 100 * int 15) ?s1"
    by (rule scanRanges_skip) (simp_all add: rangeStep_speech take_loud)
  have fs: "\<not> futureSpeech takeSamples takeThreshold 12 34000 1600 1"
    by (rule futureSpeech_quiet) (simp add: take_quiet)
  have c: "scanRanges takeSamples takeThreshold 12 34000 1600 ?s1 = scanRanges takeSamples takeThreshold 12 34000 1700 ?s2"
    using scanRanges_unfold[of 1600 34000 takeSamples takeThreshold 12 ?s1]
    by (simp add: rangeStep_speech_ends take_quiet fs)
  have d: "scanRanges takeSamples takeThreshold 12 34000 1700 ?s2 = scanRanges takeSamples takeThreshold 12 34000 (1700 + 100 * int 306) ?s2"
    by (rule scanRanges_skip) (simp_all add: rangeStep_silence take_quiet)
  have e: "scanRanges takeSamples takeThreshold 12 34000 32300 ?s2 = scanRanges takeSamples takeThreshold 12 34000 32400 ?s3"
    using scanRanges_unfold[of 32300 34000 takeSamples takeThreshold 12 ?s2]
    by (simp add: rangeStep_speech_begins take_loud)
  have f: "scanRanges takeSamples takeThreshold 12 34000 32400 ?s3 = ?s3"
    by (rule scanRanges_speech[OF _ refl]) (simp add: take_loud)
  show ?thesis using a b c d e f by simp
qed

lemma take_peak: "maxScan takeSamples 34000 0 0 = 1 / 2"
  by (rule maxScan_peak[where v = "1 / 2", OF _ take_data_le]) (simp_all add: take_data)

lemma take_segments:
  "speechSegmentsOf take takeSamples takeClip =
     [\<lparr>range_start = 0, range_end = 1600, range_type = SpeechSeg\<rparr>,
      \<lparr>range_start = 32300, range_end = 34000, range_type = SpeechSeg\<rparr>]"
proof -
  have rate: "sampleRate take = 8000" by (simp add: take_def)
  have all: "allRanges take takeSamples takeClip =
     [\<lparr>range_start = 0, range_end = 0, range_type = SilenceSeg\<rparr>,
      \<lparr>range_start = 0, range_end = 1600, range_type = SpeechSeg\<rparr>,
      \<lparr>range_start = 1600, range_end = 32300, range_type = SilenceSeg\<rparr>,
      \<lparr>range_start = 32300, range_end = 34000, range_type = SpeechSeg\<rparr>]"
    unfolding allRanges_def Let_def take_samples take_peak take_threshold_is rate take_limit
      take_scan by simp
  show ?thesis
    unfolding speechSegmentsOf_def all rate using kept_lengths by simp
qed




lemma take_analysis:
  "analyseTool (Some take) take_selected =
     Inr (takeClip, take,
          [\<lparr>range_start = 0, range_end = 1600, range_type = SpeechSeg\<rparr>,
           \<lparr>range_start = 32300, range_end = 34000, range_type = SpeechSeg\<rparr>],
          take_selected\<lparr>waveformCache := [(''m4'', take)]\<rparr>)"
proof -
  have data: "channelData take = [takeSamples]" by (simp add: take_def)
  have found: "findClip3 ''clip_9'' take_selected = Some takeClip"
    by (simp add: findClip3_def take_selected_def takeClip_def editor3Initial_def)
  have item: "find (\<lambda>m. media_id m = mediaIdJ takeClip) (media3 take_selected) = Some takeMedia"
    by (simp add: take_selected_def takeClip_def takeMedia_def editor3Initial_def)
  have cache: "waveformCache take_selected = []"
    by (simp add: take_selected_def editor3Initial_def)
  have sel: "selectedClipId3 take_selected = Some ''clip_9''"
    by (simp add: take_selected_def)
  have mid: "media_id takeMedia = ''m4''" by (simp add: takeMedia_def)
  show ?thesis
    unfolding analyseTool_def sel
    by (simp add: found item cache mid data take_segments Let_def)
qed

lemma take_clips:
  "autoClips takeClip firstIds (sampleRate take)
     [\<lparr>range_start = 0, range_end = 1600, range_type = SpeechSeg\<rparr>,
      \<lparr>range_start = 32300, range_end = 34000, range_type = SpeechSeg\<rparr>]
     (startTimeJ takeClip) 0 = [firstWords, lastWords]"
proof -
  have z: "double 0 = 0" by (simp add: double_def)
  show ?thesis
    by (simp add: take_def takeClip_def firstWords_def lastWords_def Let_def z)
qed

lemma take_result:
  "removeSilenceTool (Some take) firstIds take_selected =
     Returns3 ((saveState3 (take_selected\<lparr>waveformCache := [(''m4'', take)]\<rparr>))
                 \<lparr>video3 := [firstWords, lastWords], audio3 := [[], []]\<rparr>) None"
proof -
  have k: "typeJ takeClip = Video" by (simp add: takeClip_def)
  have v: "typeJ takeClip = Video \<or> audio3 take_selected \<noteq> []" using k by simp
  have tr: "video3 take_selected = [takeClip]" "audio3 take_selected = [[], []]"
    by (simp_all add: take_selected_def editor3Initial_def)
  show ?thesis
    unfolding removeSilenceTool_applied[OF take_analysis v] take_clips
    by (simp add: k tr)
qed





section \<open>Silence removal: the clips that replace the source clip\<close>







section \<open>Silence removal and undo\<close>

lemma saveState3_top:
  "historyStack3 (saveState3 s) \<noteq> [] \<and> last (historyStack3 (saveState3 s)) = stringify3 s"
proof (cases "historyStack3 s \<noteq> [] \<and> last (historyStack3 s) = stringify3 s")
  case True
  then show ?thesis by (simp add: saveState3_def)
next
  case False
  have "historyStack3 (saveState3 s) =
      (if length (historyStack3 s @ [stringify3 s]) > 50
       then tl (historyStack3 s @ [stringify3 s]) else historyStack3 s @ [stringify3 s])"
    using False by (auto simp add: saveState3_def Let_def)
  then show ?thesis using capped_nonempty[of "historyStack3 s" "stringify3 s"]
      last_capped[of "historyStack3 s" "stringify3 s"] by simp
qed

lemma saveState3_history:
  "historyStack3 (saveState3 s) =
     (if historyStack3 s \<noteq> [] \<and> last (historyStack3 s) = stringify3 s then historyStack3 s
      else if length (historyStack3 s) < 50 then historyStack3 s @ [stringify3 s]
      else tl (historyStack3 s) @ [stringify3 s])"
proof (cases "historyStack3 s")
  case Nil
  then show ?thesis by (simp add: saveState3_def Let_def)
next
  case (Cons a h)
  then show ?thesis by (auto simp add: saveState3_def Let_def)
qed

lemma saveState3_same:
  assumes "stringify3 s1 = stringify3 s" and "historyStack3 s1 = historyStack3 s"
  shows "historyStack3 (saveState3 s1) = historyStack3 (saveState3 s)"
  unfolding saveState3_history assms ..

lemma undo3_unfold:
  "historyStack3 s \<noteq> [] \<Longrightarrow>
   undo3 s = restoreState3 (last (historyStack3 s))
      (s\<lparr>redoStack3 := redoStack3 s @ [stringify3 s],
         historyStack3 := butlast (historyStack3 s)\<rparr>)"
  by (simp add: undo3_def Let_def)

lemma removeSilenceTool_undo:
  assumes "analyseTool decoded s = Inr (clip, buffer, segs, s1)"
    and "typeJ clip = Video \<or> audio3 s \<noteq> []"
  shows "removeSilenceTool decoded ids s =
           Returns3 (state_of3 (removeSilenceTool decoded ids s)) None \<and>
         historyStack3 (state_of3 (removeSilenceTool decoded ids s)) =
           historyStack3 (saveState3 s) \<and>
         video3 (undo3 (state_of3 (removeSilenceTool decoded ids s))) = video3 s \<and>
         audio3 (undo3 (state_of3 (removeSilenceTool decoded ids s))) = audio3 s \<and>
         selectedClipId3 (undo3 (state_of3 (removeSilenceTool decoded ids s))) =
           selectedClipId3 s \<and>
         zoom3 (undo3 (state_of3 (removeSilenceTool decoded ids s))) = zoom3 s \<and>
         playbackTime3 (undo3 (state_of3 (removeSilenceTool decoded ids s))) =
           max 0 (playbackTime3 s) \<and>
         historyStack3 (undo3 (state_of3 (removeSilenceTool decoded ids s))) =
           butlast (historyStack3 (saveState3 s))"
proof -
  note inr = analyseTool_Inr[OF assms(1)]
  have same: "stringify3 s1 = stringify3 s" "historyStack3 s1 = historyStack3 s"
    using inr by blast+
  let ?after = "state_of3 (removeSilenceTool decoded ids s)"
  note applied = removeSilenceTool_applied[OF assms, of ids]
  have ret: "removeSilenceTool decoded ids s = Returns3 ?after None"
    unfolding applied by simp
  have h: "historyStack3 ?after = historyStack3 (saveState3 s)"
    unfolding applied using saveState3_same[OF same] by simp
  have top: "historyStack3 ?after \<noteq> []" "last (historyStack3 ?after) = stringify3 s"
    unfolding h using saveState3_top[of s] by blast+
  have u: "undo3 ?after = restoreState3 (stringify3 s)
      (?after\<lparr>redoStack3 := redoStack3 ?after @ [stringify3 ?after],
         historyStack3 := butlast (historyStack3 ?after)\<rparr>)"
    using undo3_unfold[OF top(1)] top(2) by simp
  have fields: "video3 (undo3 ?after) = video3 s" "audio3 (undo3 ?after) = audio3 s"
    "selectedClipId3 (undo3 ?after) = selectedClipId3 s" "zoom3 (undo3 ?after) = zoom3 s"
    "playbackTime3 (undo3 ?after) = max 0 (playbackTime3 s)"
    "historyStack3 (undo3 ?after) = butlast (historyStack3 ?after)"
    unfolding u by (simp_all add: restoreState3_def stringify3_def)
  show ?thesis using ret h fields by simp
qed

text \<open>
  C7, engine by engine. When \<open>removeSilence\<close> of script.js reaches its second part, it
  pushes two snapshots: the state before the call, and the state in which the clip has
  been replaced by its speech and silence parts laid end to end. One \<open>undo\<close> gives that
  intermediate state back, and a second one the state before the call (with the playhead
  not below 0, as \<open>seek\<close> stores it). \<open>removeSilenceTool\<close> of the second engine saves
  once, before it changes the tracks: the history afterwards is what one \<open>saveState\<close>
  leaves (one more snapshot, unless the state was already on top), and a single \<open>undo\<close>
  gives back the tracks with the original clip, the selection and the zoom, and the
  playhead not below 0.
\<close>

theorem silence_removal_undo_steps:
  "(analyseSilence decoded e = Inr (trackType, clipJ, allSegments) \<longrightarrow>
      historyStackJ (fst (removeSilence decoded idsJ e)) =
        capped (capped (historyStackJ e @ [snapshotJ e]) @
          [snapshotJ (setTrack trackType (withoutClip trackType clipJ e @
               makeClips clipJ idsJ allSegments (startTimeJ clipJ) 0) e)]) \<and>
      snapshotJ (undo_js (fst (removeSilence decoded idsJ e))) =
        (snapshotJ (setTrack trackType (withoutClip trackType clipJ e @
               makeClips clipJ idsJ allSegments (startTimeJ clipJ) 0) e))
          \<lparr>snapJ_playbackTime := max 0 (playbackTimeJ e)\<rparr> \<and>
      snapshotJ (undo_js (undo_js (fst (removeSilence decoded idsJ e)))) =
        (snapshotJ e)\<lparr>snapJ_playbackTime := max 0 (playbackTimeJ e)\<rparr>) \<and>
   (analyseTool decoded3 s = Inr (clip, buffer, segs, s1) \<and>
    (typeJ clip = Video \<or> audio3 s \<noteq> []) \<longrightarrow>
      removeSilenceTool decoded3 ids s =
        Returns3 (state_of3 (removeSilenceTool decoded3 ids s)) None \<and>
      historyStack3 (state_of3 (removeSilenceTool decoded3 ids s)) =
        (if historyStack3 s \<noteq> [] \<and> last (historyStack3 s) = stringify3 s
         then historyStack3 s
         else if length (historyStack3 s) < 50 then historyStack3 s @ [stringify3 s]
         else tl (historyStack3 s) @ [stringify3 s]) \<and>
      video3 (undo3 (state_of3 (removeSilenceTool decoded3 ids s))) = video3 s \<and>
      audio3 (undo3 (state_of3 (removeSilenceTool decoded3 ids s))) = audio3 s \<and>
      selectedClipId3 (undo3 (state_of3 (removeSilenceTool decoded3 ids s))) =
        selectedClipId3 s \<and>
      zoom3 (undo3 (state_of3 (removeSilenceTool decoded3 ids s))) = zoom3 s \<and>
      playbackTime3 (undo3 (state_of3 (removeSilenceTool decoded3 ids s))) =
        max 0 (playbackTime3 s) \<and>
      historyStack3 (undo3 (state_of3 (removeSilenceTool decoded3 ids s))) =
        butlast (historyStack3 (state_of3 (removeSilenceTool decoded3 ids s))))"
proof ((rule conjI; rule impI), goal_cases)
  case 1
  then show ?case by (rule removeSilence_history)
next
  case 2
  then have an: "analyseTool decoded3 s = Inr (clip, buffer, segs, s1)"
    and ty: "typeJ clip = Video \<or> audio3 s \<noteq> []" by blast+
  note u = removeSilenceTool_undo[OF an ty, of ids]
  have h: "historyStack3 (state_of3 (removeSilenceTool decoded3 ids s)) =
        (if historyStack3 s \<noteq> [] \<and> last (historyStack3 s) = stringify3 s
         then historyStack3 s
         else if length (historyStack3 s) < 50 then historyStack3 s @ [stringify3 s]
         else tl (historyStack3 s) @ [stringify3 s])"
    using u saveState3_history[of s] by simp
  have b: "historyStack3 (undo3 (state_of3 (removeSilenceTool decoded3 ids s))) =
        butlast (historyStack3 (state_of3 (removeSilenceTool decoded3 ids s)))"
    using u by simp
  show ?case using u h b by blast
qed

theorem silence_removal_undo_steps_witness:
  "analyseSilence (Some talk) voice_selected =
     Inr (Audio, voiceClip,
          [\<lparr>seg_start = 0, seg_end = 1, seg_type = SpeechSeg\<rparr>,
           \<lparr>seg_start = 1, seg_end = 2, seg_type = SilenceSeg\<rparr>]) \<and>
   historyStackJ (fst (removeSilence (Some talk) splitIds voice_selected)) =
     [snapshotJ voice_selected,
      snapshotJ (setTrack Audio [speechPart, silencePart] voice_selected)] \<and>
   snapshotJ (undo_js (fst (removeSilence (Some talk) splitIds voice_selected))) =
     snapshotJ (setTrack Audio [speechPart, silencePart] voice_selected) \<and>
   snapshotJ (undo_js (undo_js (fst (removeSilence (Some talk) splitIds voice_selected)))) =
     snapshotJ voice_selected \<and>
   analyseTool (Some take) take_selected =
     Inr (takeClip, take,
          [\<lparr>range_start = 0, range_end = 1600, range_type = SpeechSeg\<rparr>,
           \<lparr>range_start = 32300, range_end = 34000, range_type = SpeechSeg\<rparr>],
          take_selected\<lparr>waveformCache := [(''m4'', take)]\<rparr>) \<and>
   typeJ takeClip = Video \<and>
   video3 take_selected = [takeClip] \<and>
   video3 (state_of3 (removeSilenceTool (Some take) firstIds take_selected)) =
     [firstWords, lastWords] \<and>
   historyStack3 (state_of3 (removeSilenceTool (Some take) firstIds take_selected)) =
     [stringify3 take_selected] \<and>
   video3 (undo3 (state_of3 (removeSilenceTool (Some take) firstIds take_selected))) =
     [takeClip] \<and>
   historyStack3 (undo3 (state_of3 (removeSilenceTool (Some take) firstIds take_selected))) =
     []"
proof -
  have h0: "historyStackJ voice_selected = []" "playbackTimeJ voice_selected = 0"
    by (simp_all add: voice_selected_def editorInitial_def)
  have k: "typeJ takeClip = Video" by (simp add: takeClip_def)
  have v: "video3 take_selected = [takeClip]" "historyStack3 take_selected = []"
    by (simp_all add: take_selected_def editor3Initial_def)
  note law = silence_removal_undo_steps[of "Some talk" voice_selected Audio voiceClip
      "[\<lparr>seg_start = 0, seg_end = 1, seg_type = SpeechSeg\<rparr>,
        \<lparr>seg_start = 1, seg_end = 2, seg_type = SilenceSeg\<rparr>]" splitIds
      "Some take" take_selected takeClip take
      "[\<lparr>range_start = 0, range_end = 1600, range_type = SpeechSeg\<rparr>,
        \<lparr>range_start = 32300, range_end = 34000, range_type = SpeechSeg\<rparr>]"
      "take_selected\<lparr>waveformCache := [(''m4'', take)]\<rparr>" firstIds]
  have js: "historyStackJ (fst (removeSilence (Some talk) splitIds voice_selected)) =
     [snapshotJ voice_selected,
      snapshotJ (setTrack Audio [speechPart, silencePart] voice_selected)] \<and>
   snapshotJ (undo_js (fst (removeSilence (Some talk) splitIds voice_selected))) =
     snapshotJ (setTrack Audio [speechPart, silencePart] voice_selected) \<and>
   snapshotJ (undo_js (undo_js (fst (removeSilence (Some talk) splitIds voice_selected)))) =
     snapshotJ voice_selected"
    using law[THEN conjunct1, THEN mp, OF talk_analysis]
    unfolding talk_clips voice_without h0
    by (simp add: capped_def voice_snapshot voice_split_snapshot)
  have pre: "analyseTool (Some take) take_selected =
     Inr (takeClip, take,
          [\<lparr>range_start = 0, range_end = 1600, range_type = SpeechSeg\<rparr>,
           \<lparr>range_start = 32300, range_end = 34000, range_type = SpeechSeg\<rparr>],
          take_selected\<lparr>waveformCache := [(''m4'', take)]\<rparr>) \<and>
     (typeJ takeClip = Video \<or> audio3 take_selected \<noteq> [])"
    using take_analysis k by simp
  note tool = law[THEN conjunct2, THEN mp, OF pre]
  have t1: "historyStack3 (state_of3 (removeSilenceTool (Some take) firstIds take_selected)) =
     [stringify3 take_selected]"
    using tool by (simp add: v)
  have t2: "video3 (undo3 (state_of3 (removeSilenceTool (Some take) firstIds take_selected))) =
     [takeClip]"
    using tool by (simp add: v)
  have t3: "historyStack3 (undo3 (state_of3
      (removeSilenceTool (Some take) firstIds take_selected))) = []"
    using tool by (simp add: v)
  have t0: "video3 (state_of3 (removeSilenceTool (Some take) firstIds take_selected)) =
     [firstWords, lastWords]"
    unfolding take_result by simp
  show ?thesis
    using talk_analysis js take_analysis k v(1) t0 t1 t2 t3 by blast
qed

theorem removeSilence_single_undo_counterexample:
  "tracksAudio voice_selected = [voiceClip] \<and>
   historyStackJ voice_selected = [] \<and>
   tracksAudio (fst (removeSilence (Some talk) splitIds voice_selected)) =
     [speechPart] \<and>
   length (historyStackJ (fst (removeSilence (Some talk) splitIds voice_selected))) = 2 \<and>
   tracksAudio (undo_js (fst (removeSilence (Some talk) splitIds voice_selected))) =
     [speechPart, silencePart] \<and>
   tracksAudio (undo_js (fst (removeSilence (Some talk) splitIds voice_selected))) \<noteq>
     tracksAudio voice_selected"
proof -
  have h0: "historyStackJ voice_selected = []" "playbackTimeJ voice_selected = 0"
    "tracksAudio voice_selected = [voiceClip]"
    by (simp_all add: voice_selected_def editorInitial_def)
  from removeSilence_history[OF talk_analysis, of splitIds]
  have h: "historyStackJ (fst (removeSilence (Some talk) splitIds voice_selected)) =
     [snapshotJ voice_selected,
      snapshotJ (setTrack Audio [speechPart, silencePart] voice_selected)]"
    and u: "snapshotJ (undo_js (fst (removeSilence (Some talk) splitIds voice_selected))) =
     snapshotJ (setTrack Audio [speechPart, silencePart] voice_selected)"
    unfolding talk_clips voice_without h0
    by (simp_all add: capped_def voice_snapshot voice_split_snapshot)
  have a: "tracksAudio (fst (removeSilence (Some talk) splitIds voice_selected)) = [speechPart]"
    unfolding removeSilence_applied[OF talk_analysis] talk_clips voice_without
    by (simp add: setTrack_def notSilence_def speechPart_def silencePart_def voiceClip_def)
  have b: "tracksAudio (undo_js (fst (removeSilence (Some talk) splitIds voice_selected))) =
     [speechPart, silencePart]"
    unfolding tracks_of_snapshot(1) u by (simp add: voice_split_snapshot)
  have c: "[speechPart, silencePart] \<noteq> [voiceClip]" by simp
  show ?thesis using h0 h a b c by simp
qed

section \<open>The thumbnail cache of script.js\<close>

lemmas thumb_simps = thumbRun_def thumbsInitial_def requestThumbnail_def captureThumbnail_def
  processThumbQueue_def onSeek_def onError_def fireSeeked_def fireError_def Let_def

lemma decimal_0: "decimal 0 = ''0''"
  by code_simp

lemma film_keys: "cacheKeyOf ''m1'' 0 = ''m1_0''" "cacheKeyOf ''m1'' (1 / 20) = ''m1_0''"
  by (simp_all add: cacheKeyOf_def showInt_def decimal_0 del: decimal.simps)

text \<open>A request whose key is in the cache is answered from the cache: no task is queued
  and the shared element is not sought.\<close>

lemma cached_request_is_served:
  assumes "map_of (thumbnailCache s) (cacheKeyOf mediaIdent thumbTime) = Some dataURL"
  shows "requestThumbnail mediaIdent url thumbTime s =
           s\<lparr>servedLog := servedLog s @ [cacheKeyOf mediaIdent thumbTime]\<rparr>"
  using assms by (simp add: requestThumbnail_def)

text \<open>When the second request comes after the first capture has ended, there is one
  capture.\<close>

lemma second_request_after_capture:
  "seekLog (thumbRun [Request ''m1'' ''blob:film'' 0, Seeked,
                      Request ''m1'' ''blob:film'' 0.05]) = [(''blob:film'', 0)] \<and>
   servedLog (thumbRun [Request ''m1'' ''blob:film'' 0, Seeked,
                        Request ''m1'' ''blob:film'' 0.05]) = [''m1_0'']"
  by (simp add: thumb_simps film_keys)

text \<open>
  C9, where the code departs from it. Two thumbnails of the same media at 0 s and 0.05 s
  have the same cache key. When the second is requested before the capture of the first
  has ended (two clips of one media drawn in the same pass), the cache is still empty,
  both tasks are queued, and \<open>processThumbQueue\<close> seeks the shared element for each of
  them: two captures for one key, none answered from the cache.
\<close>

theorem same_key_captured_twice:
  "cacheKeyOf ''m1'' 0 = cacheKeyOf ''m1'' 0.05 \<and>
   seekLog (thumbRun [Request ''m1'' ''blob:film'' 0, Request ''m1'' ''blob:film'' 0.05,
                      Seeked, Timer, Seeked]) = [(''blob:film'', 0), (''blob:film'', 0.05)] \<and>
   servedLog (thumbRun [Request ''m1'' ''blob:film'' 0, Request ''m1'' ''blob:film'' 0.05,
                        Seeked, Timer, Seeked]) = [] \<and>
   map fst (thumbnailCache (thumbRun [Request ''m1'' ''blob:film'' 0,
                        Request ''m1'' ''blob:film'' 0.05, Seeked, Timer, Seeked])) =
     [''m1_0'', ''m1_0'']"
  by (simp add: thumb_simps film_keys)

end
